theory Spec2Isabelle
  imports Main
begin

section \<open>Identity and session security core: the User model and the auth routes\<close>

text \<open>
  The development embeds the User model (models/User.js) and the authentication routes
  (routes/authRoutes.js) of the platform.

  Conventions of the embedding:
  \<^item> a timestamp (a JavaScript Date, or the number returned by Date.now()) is an \<open>int\<close>,
    milliseconds since the epoch; an absent Date field is \<open>None\<close>;
  \<^item> all clock reads made while one request is handled return the same instant \<open>now\<close>;
    only \<open>login_at\<close> keeps the read of the lock check, before the password is compared,
    apart from the reads of the update that follows the comparison;
  \<^item> a string is a list of code units below 256;
  \<^item> the collection of users is the list of its documents in natural order; \<open>findOne\<close>
    returns the first match and \<open>updateOne\<close> changes the first document with the given id;
  \<^item> fields of the schema that no auth route reads or writes (avatar, dateOfBirth, gender,
    address, twoFactorAuth, preferences, phoneVerificationCode) are left out;
  \<^item> calls to the logger are left out: they do not touch the collection or the response;
  \<^item> the rate limiters and the auth middleware run before the handlers: a request here is
    one they let through; server.js mounts the router behind helmet, cors, the body parsers,
    mongoSanitize, hpp and compression, and behind no cookie parser;
  \<^item> no call to the collection fails or times out and both signing secrets are configured,
    so a \<open>catch\<close> block is reached only where the text says so;
  \<^item> a response records the status, the fields of the JSON body and the cookie; where the
    body lists fields of a user, \<open>data_user\<close> is the document they are read from;
  \<^item> the libraries (bcryptjs, crypto, jsonwebtoken's verify, express-validator) are
    parameters: their functions are fields of the record \<open>lib\<close>, the random values they draw
    and the outcome of the validation chains are inputs of the request.
\<close>

subsection \<open>Data model\<close>

datatype role = passenger | staff | admin | moderator

datatype status = active | suspended | pending_verification | deactivated

record user =
  user_id :: nat
  name :: string
  email :: string
  phone :: string
  password :: string
  role :: role
  status :: status
  isEmailVerified :: bool
  isPhoneVerified :: bool
  loginAttempts_count :: int
  loginAttempts_lockUntil :: "int option"
  loginAttempts_resetAt :: "int option"
  lastLogin_timestamp :: "int option"
  lastLogin_ipAddress :: string
  lastLogin_userAgent :: string
  lastLogin_location :: "(string \<times> string) option"
  emailVerificationToken :: "string option"
  emailVerificationExpires :: "int option"
  passwordResetToken :: "string option"
  passwordResetExpires :: "int option"

text \<open>
  \<open>loginAttempts.count\<close> has the schema default 0: a document whose field was removed by
  \<open>$unset\<close> reads 0 when loaded and gets 1 from \<open>$inc\<close>, as a stored 0 does, so the
  removed field and the stored 0 are one value here.
\<close>

type_synonym store = "user list"

datatype jsval = JId nat | JStr string | JBool bool

text \<open>A signed token is the record of what was handed to \<open>jwt.sign\<close>, and when.\<close>

datatype jwt = Jwt (jwt_payload: "(string \<times> jsval) list") (jwt_secret: string)
  (jwt_expiresIn: string) (jwt_iat: int)

record lib =
  bcrypt_compare :: "string \<Rightarrow> string \<Rightarrow> bool"
  bcrypt_hash :: "string \<Rightarrow> string \<Rightarrow> string"
  sha256_hex :: "string \<Rightarrow> string"
  jwt_verify :: "jwt \<Rightarrow> string \<Rightarrow> int \<Rightarrow> (string \<times> jsval) list option"

record env =
  JWT_SECRET :: string
  JWT_REFRESH_SECRET :: string
  JWT_EXPIRE :: "string option"
  JWT_REFRESH_EXPIRE :: "string option"
  NODE_ENV :: "string option"

text \<open>\<open>process.env.X || d\<close>: an unset or empty variable gives the default.\<close>

definition or_default :: "string option \<Rightarrow> string \<Rightarrow> string" where
  "or_default v d = (case v of None \<Rightarrow> d | Some x \<Rightarrow> if x = [] then d else x)"

subsection \<open>Virtuals and instance methods of the User schema\<close>

text \<open>\<open>!!(this.loginAttempts.lockUntil && this.loginAttempts.lockUntil > Date.now())\<close>\<close>

definition isLocked :: "user \<Rightarrow> int \<Rightarrow> bool" where
  "isLocked this now =
     (case loginAttempts_lockUntil this of None \<Rightarrow> False | Some t \<Rightarrow> t > now)"

definition maxAttempts :: int where
  "maxAttempts = 5"

definition lockTime :: int where
  "lockTime = 2 * 60 * 60 * 1000"

text \<open>
  \<open>incLoginAttempts\<close> decides on the loaded document \<open>this\<close> and returns the update
  that \<open>this.updateOne\<close> sends to the collection: \<open>$inc\<close> adds to the stored counter,
  \<open>$set\<close> and \<open>$unset\<close> overwrite.
\<close>

definition incLoginAttempts :: "user \<Rightarrow> int \<Rightarrow> (user \<Rightarrow> user)" where
  "incLoginAttempts this now =
     (if (case loginAttempts_lockUntil this of None \<Rightarrow> False | Some t \<Rightarrow> t < now)
      then (\<lambda>d. d\<lparr>loginAttempts_lockUntil := None,
                   loginAttempts_count := 1,
                   loginAttempts_resetAt := Some now\<rparr>)
      else if loginAttempts_count this + 1 \<ge> maxAttempts \<and> \<not> isLocked this now
      then (\<lambda>d. d\<lparr>loginAttempts_count := loginAttempts_count d + 1,
                   loginAttempts_lockUntil := Some (now + lockTime)\<rparr>)
      else (\<lambda>d. d\<lparr>loginAttempts_count := loginAttempts_count d + 1\<rparr>))"

record loginInfo =
  ipAddress :: string
  userAgent :: string
  location :: "(string \<times> string) option"

definition resetLoginAttempts :: "loginInfo \<Rightarrow> int \<Rightarrow> (user \<Rightarrow> user)" where
  "resetLoginAttempts info now =
     (\<lambda>d. let d1 = d\<lparr>loginAttempts_count := 0,
                       loginAttempts_lockUntil := None,
                       lastLogin_timestamp := Some now,
                       lastLogin_ipAddress := ipAddress info,
                       lastLogin_userAgent := userAgent info\<rparr>
          in (case location info of
                None \<Rightarrow> d1
              | Some l \<Rightarrow> d1\<lparr>lastLogin_location := Some l\<rparr>))"

definition comparePassword :: "lib \<Rightarrow> user \<Rightarrow> string \<Rightarrow> bool" where
  "comparePassword L this candidatePassword =
     (if password this = [] then False
      else bcrypt_compare L candidatePassword (password this))"

definition role_name :: "role \<Rightarrow> string" where
  "role_name r = (case r of passenger \<Rightarrow> ''passenger'' | staff \<Rightarrow> ''staff''
                  | admin \<Rightarrow> ''admin'' | moderator \<Rightarrow> ''moderator'')"

definition generateAuthToken :: "env \<Rightarrow> user \<Rightarrow> int \<Rightarrow> jwt" where
  "generateAuthToken E this now =
     Jwt [(''id'', JId (user_id this)),
          (''email'', JStr (email this)),
          (''role'', JStr (role_name (role this))),
          (''verified'', JBool (isEmailVerified this \<and> isPhoneVerified this))]
         (JWT_SECRET E) (or_default (JWT_EXPIRE E) ''1h'') now"

definition generateRefreshToken :: "env \<Rightarrow> user \<Rightarrow> int \<Rightarrow> jwt" where
  "generateRefreshToken E this now =
     Jwt [(''id'', JId (user_id this))]
         (JWT_REFRESH_SECRET E) (or_default (JWT_REFRESH_EXPIRE E) ''7d'') now"

text \<open>The random token drawn by \<open>crypto.randomBytes\<close> is the argument \<open>token\<close>;
  the method changes the document and returns the raw token.\<close>

definition generateEmailVerificationToken :: "lib \<Rightarrow> user \<Rightarrow> string \<Rightarrow> int \<Rightarrow> user" where
  "generateEmailVerificationToken L this token now =
     this\<lparr>emailVerificationToken := Some (sha256_hex L token),
          emailVerificationExpires := Some (now + 24 * 60 * 60 * 1000)\<rparr>"

definition generatePasswordResetToken :: "lib \<Rightarrow> user \<Rightarrow> string \<Rightarrow> int \<Rightarrow> user" where
  "generatePasswordResetToken L this token now =
     this\<lparr>passwordResetToken := Some (sha256_hex L token),
          passwordResetExpires := Some (now + 10 * 60 * 1000)\<rparr>"

subsection \<open>JavaScript strings and the regular expressions of the schema\<close>

definition charCode :: "char \<Rightarrow> nat" where
  "charCode c = of_char c"

definition isUpper :: "char \<Rightarrow> bool" where
  "isUpper c = (65 \<le> charCode c \<and> charCode c \<le> 90)"

definition isLower :: "char \<Rightarrow> bool" where
  "isLower c = (97 \<le> charCode c \<and> charCode c \<le> 122)"

definition isAlpha :: "char \<Rightarrow> bool" where
  "isAlpha c = (isUpper c \<or> isLower c)"

definition isDigit :: "char \<Rightarrow> bool" where
  "isDigit c = (48 \<le> charCode c \<and> charCode c \<le> 57)"

text \<open>The class \<open>\s\<close> on code units below 256: tab, line feed, vertical tab, form feed,
  carriage return, space and the no-break space.\<close>

definition isSpace :: "char \<Rightarrow> bool" where
  "isSpace c = (charCode c \<in> {9, 10, 11, 12, 13, 32, 160})"

definition toLowerChar :: "char \<Rightarrow> char" where
  "toLowerChar c =
     (if isUpper c \<or> (192 \<le> charCode c \<and> charCode c \<le> 222 \<and> charCode c \<noteq> 215)
      then char_of (charCode c + 32) else c)"

definition toLowerCase :: "string \<Rightarrow> string" where
  "toLowerCase s = map toLowerChar s"

definition trim :: "string \<Rightarrow> string" where
  "trim s = rev (dropWhile isSpace (rev (dropWhile isSpace s)))"

text \<open>\<open>s.replace(/[\s-]/g, '')\<close>\<close>

definition stripSpacesHyphens :: "string \<Rightarrow> string" where
  "stripSpacesHyphens s = filter (\<lambda>c. \<not> isSpace c \<and> c \<noteq> CHR ''-'') s"

definition startsWith :: "string \<Rightarrow> string \<Rightarrow> bool" where
  "startsWith s p = (take (length p) s = p)"

text \<open>
  \<open>/^[a-zA-Z0-9._%+-]+@[a-zA-Z0-9.-]+\.[a-zA-Z]{2,}$/\<close>. Neither class holds \<open>@\<close>, so the
  local part ends at the first \<open>@\<close>; the last group holds letters only, so it starts after
  the last dot.
\<close>

definition emailLocalChar :: "char \<Rightarrow> bool" where
  "emailLocalChar c = (isAlpha c \<or> isDigit c \<or> c \<in> set ''._%+-'')"

definition emailDomainChar :: "char \<Rightarrow> bool" where
  "emailDomainChar c = (isAlpha c \<or> isDigit c \<or> c \<in> set ''.-'')"

definition emailRegex_test :: "string \<Rightarrow> bool" where
  "emailRegex_test s =
     (let localPart = takeWhile (\<lambda>c. c \<noteq> CHR ''@'') s;
          rest = dropWhile (\<lambda>c. c \<noteq> CHR ''@'') s
      in localPart \<noteq> [] \<and> list_all emailLocalChar localPart \<and>
         (case rest of
            [] \<Rightarrow> False
          | _ # domainPart \<Rightarrow>
              (let tld = rev (takeWhile (\<lambda>c. c \<noteq> CHR ''.'') (rev domainPart));
                   front = dropWhile (\<lambda>c. c \<noteq> CHR ''.'') (rev domainPart)
               in 2 \<le> length tld \<and> list_all isAlpha tld \<and>
                  (case front of
                     [] \<Rightarrow> False
                   | _ # pre \<Rightarrow> pre \<noteq> [] \<and> list_all emailDomainChar pre))))"

text \<open>\<open>/^[a-zA-Z\s'-]+$/\<close>\<close>

definition nameRegex_test :: "string \<Rightarrow> bool" where
  "nameRegex_test s =
     (s \<noteq> [] \<and> list_all (\<lambda>c. isAlpha c \<or> isSpace c \<or> charCode c = 39 \<or> c = CHR ''-'') s)"

text \<open>\<open>/^(\+91[-\s]?)?[6-9]\d{9}$/\<close>, tested on the phone with its white space removed.\<close>

definition phoneRegex_test :: "string \<Rightarrow> bool" where
  "phoneRegex_test s =
     (let p = (if startsWith s ''+91''
               then (case drop 3 s of
                       [] \<Rightarrow> []
                     | c # r \<Rightarrow> if c = CHR ''-'' \<or> isSpace c then r else c # r)
               else s)
      in length p = 10 \<and> list_all isDigit p \<and>
         (case p of [] \<Rightarrow> False | c # _ \<Rightarrow> 54 \<le> charCode c))"

text \<open>\<open>/^(?=.*[A-Za-z])(?=.*\d)[A-Za-z\d@$!%*#?&]{8,}$/\<close>\<close>

definition passwordRegex_test :: "string \<Rightarrow> bool" where
  "passwordRegex_test s =
     (list_ex isAlpha s \<and> list_ex isDigit s \<and> 8 \<le> length s \<and>
      list_all (\<lambda>c. isAlpha c \<or> isDigit c \<or> c \<in> set ''@$!%*#?&'') s)"

text \<open>The validators of the schema on the four paths a route assigns: required, the length
  bounds, and the custom validator.\<close>

definition validate_name :: "string \<Rightarrow> bool" where
  "validate_name n = (n \<noteq> [] \<and> length n \<le> 50 \<and> 2 \<le> length n \<and> nameRegex_test n)"

definition validate_email :: "string \<Rightarrow> bool" where
  "validate_email e = (e \<noteq> [] \<and> emailRegex_test e)"

definition validate_phone :: "string \<Rightarrow> bool" where
  "validate_phone p = (p \<noteq> [] \<and> phoneRegex_test (filter (\<lambda>c. \<not> isSpace c) p))"

definition validate_password :: "string \<Rightarrow> bool" where
  "validate_password p = (p \<noteq> [] \<and> 8 \<le> length p \<and> passwordRegex_test p)"

subsection \<open>The collection\<close>

definition findOne :: "(user \<Rightarrow> bool) \<Rightarrow> store \<Rightarrow> user option" where
  "findOne P s = find P s"

definition findById :: "store \<Rightarrow> nat \<Rightarrow> user option" where
  "findById s i = findOne (\<lambda>u. user_id u = i) s"

fun updateOne :: "store \<Rightarrow> nat \<Rightarrow> (user \<Rightarrow> user) \<Rightarrow> store" where
  "updateOne [] i f = []"
| "updateOne (d # ds) i f = (if user_id d = i then f d # ds else d # updateOne ds i f)"

text \<open>A handler's write, if it makes one: the id of the document and the update.\<close>

type_synonym db_write = "(nat \<times> (user \<Rightarrow> user)) option"

definition apply_write :: "store \<Rightarrow> db_write \<Rightarrow> store" where
  "apply_write s w = (case w of None \<Rightarrow> s | Some (i, f) \<Rightarrow> updateOne s i f)"

definition findByEmailOrPhone :: "store \<Rightarrow> string \<Rightarrow> user option" where
  "findByEmailOrPhone s identifier =
     (if emailRegex_test identifier
      then findOne (\<lambda>u. email u = toLowerCase identifier) s
      else (let normalizedPhone = stripSpacesHyphens identifier
            in findOne (\<lambda>u. phone u = normalizedPhone \<or> phone u = ''+91'' @ normalizedPhone) s))"

subsection \<open>Requests and responses\<close>

text \<open>
  The request as the handler sees it: the body after the validation chains sanitised it,
  the errors they found (field and message), the route parameter, \<open>req.user.id\<close> as the
  auth middleware set it, and \<open>req.cookies\<close>: \<open>None\<close> is the \<open>undefined\<close> a handler finds
  where no cookie parser ran, \<open>Some c\<close> a parsed cookie object whose \<open>refreshToken\<close> is \<open>c\<close>. In the responses, the emoji that end some
  messages are left out.
\<close>

record request =
  validationErrors :: "(string \<times> string) list"
  body_name :: string
  body_email :: string
  body_phone :: string
  body_password :: string
  body_identifier :: string
  body_rememberMe :: bool
  body_refreshToken :: "jwt option"
  req_cookies :: "jwt option option"
  params_token :: string
  req_ip :: string
  req_userAgent :: string
  req_user_id :: nat

record cookieOptions =
  httpOnly :: bool
  secure :: bool
  sameSite :: string
  maxAge :: int

record response =
  statusCode :: nat
  success :: bool
  error :: "string option"
  message :: "string option"
  tip :: "string option"
  tips :: "string list"
  details :: "(string \<times> string) list"
  data_user :: "user option"
  accessToken :: "jwt option"
  refreshToken :: "jwt option"
  expiresIn :: "string option"
  cookie_refreshToken :: "(jwt \<times> cookieOptions) option"
  clearCookie_refreshToken :: bool

definition json :: "nat \<Rightarrow> bool \<Rightarrow> response" where
  "json c ok = \<lparr>statusCode = c, success = ok, error = None, message = None, tip = None,
     tips = [], details = [], data_user = None, accessToken = None, refreshToken = None,
     expiresIn = None, cookie_refreshToken = None, clearCookie_refreshToken = False\<rparr>"

definition failure :: "nat \<Rightarrow> string \<Rightarrow> response" where
  "failure c e = (json c False)\<lparr>error := Some e\<rparr>"

definition failure_tip :: "nat \<Rightarrow> string \<Rightarrow> string \<Rightarrow> response" where
  "failure_tip c e t = (json c False)\<lparr>error := Some e, tip := Some t\<rparr>"

subsection \<open>POST /register\<close>

text \<open>
  \<open>new User({...})\<close>: the setters of the schema trim the name and lower-case and trim the
  email; every other path takes its default. \<open>newId\<close> is the id the driver draws.
\<close>

definition new_User :: "nat \<Rightarrow> string \<Rightarrow> string \<Rightarrow> string \<Rightarrow> string \<Rightarrow> user" where
  "new_User newId n e p pw =
     \<lparr>user_id = newId, name = trim n, email = trim (toLowerCase e), phone = p, password = pw,
      role = passenger, status = pending_verification,
      isEmailVerified = False, isPhoneVerified = False,
      loginAttempts_count = 0, loginAttempts_lockUntil = None, loginAttempts_resetAt = None,
      lastLogin_timestamp = None, lastLogin_ipAddress = [], lastLogin_userAgent = [],
      lastLogin_location = None,
      emailVerificationToken = None, emailVerificationExpires = None,
      passwordResetToken = None, passwordResetExpires = None\<rparr>"

text \<open>The two \<open>pre('save')\<close> hooks, on a document whose password and phone are modified:
  the password is hashed with the salt drawn by \<open>bcrypt.genSalt\<close>, the phone is normalised.\<close>

definition pre_save_password :: "lib \<Rightarrow> string \<Rightarrow> user \<Rightarrow> user" where
  "pre_save_password L salt this = this\<lparr>password := bcrypt_hash L (password this) salt\<rparr>"

definition pre_save_phone :: "user \<Rightarrow> user" where
  "pre_save_phone this =
     (let p = stripSpacesHyphens (phone this)
      in if startsWith p ''+91'' then this\<lparr>phone := p\<rparr>
         else if length p = 10 then this\<lparr>phone := ''+91'' @ p\<rparr>
         else this)"

text \<open>
  \<open>user.save()\<close> of a new document: validation, then the hooks, then the insert, which the
  unique indexes on email and phone can refuse with error 11000 (the email index is taken
  to be reported first when both refuse).
\<close>

datatype save_error = ValidationError | DuplicateKey string

definition save_new :: "lib \<Rightarrow> string \<Rightarrow> store \<Rightarrow> user \<Rightarrow> save_error + (store \<times> user)" where
  "save_new L salt s this =
     (if \<not> (validate_name (name this) \<and> validate_email (email this) \<and>
             validate_phone (phone this) \<and> validate_password (password this))
      then Inl ValidationError
      else (let doc = pre_save_phone (pre_save_password L salt this)
            in if list_ex (\<lambda>u. email u = email doc) s then Inl (DuplicateKey ''email'')
               else if list_ex (\<lambda>u. phone u = phone doc) s then Inl (DuplicateKey ''phone'')
               else Inr (s @ [doc], doc)))"

definition register :: "lib \<Rightarrow> env \<Rightarrow> store \<Rightarrow> request \<Rightarrow> nat \<Rightarrow> string \<Rightarrow> string \<Rightarrow> int
    \<Rightarrow> store \<times> response" where
  "register L E s req newId token salt now =
     (if validationErrors req \<noteq> []
      then (s, (failure 400 ''Please check your input and try again'')
                 \<lparr>details := validationErrors req\<rparr>)
      else
        (case findOne (\<lambda>u. email u = toLowerCase (body_email req) \<or>
                            phone u = body_phone req \<or>
                            phone u = ''+91'' @ body_phone req) s of
           Some existingUser \<Rightarrow>
             (s, failure_tip 400 ''An account with this email or phone number already exists''
                   ''Try logging in instead, or use the forgot password option if you forgot your credentials'')
         | None \<Rightarrow>
             (let user0 = new_User newId (trim (body_name req)) (toLowerCase (body_email req))
                            (if startsWith (body_phone req) ''+91'' then body_phone req
                             else ''+91'' @ body_phone req)
                            (body_password req);
                  user1 = generateEmailVerificationToken L user0 token now
              in case save_new L salt s user1 of
                   Inl (DuplicateKey field) \<Rightarrow>
                     (s, failure_tip 400 (''This '' @ field @ '' is already registered'')
                           ''Try logging in or use a different email/phone number'')
                 | Inl ValidationError \<Rightarrow>
                     (s, failure_tip 500 ''Registration failed. Please try again.''
                           ''If this problem persists, please contact our support team'')
                 | Inr (s', user) \<Rightarrow>
                     (s', (json 201 True)
                        \<lparr>message := Some ''Welcome to Indian Railways Smart Platform!'',
                         data_user := Some user,
                         accessToken := Some (generateAuthToken E user now),
                         refreshToken := Some (generateRefreshToken E user now),
                         expiresIn := Some (or_default (JWT_EXPIRE E) ''1h''),
                         tips := [''Please verify your email address to unlock all features'',
                                  ''Complete your profile for a better experience'',
                                  ''Enable 2FA for enhanced security'']\<rparr>))))"

subsection \<open>POST /login\<close>

text \<open>
  The handler awaits the query, decides on the document it got, and awaits one update.
  \<open>login_decide\<close> is the part between the two: from the loaded document to the write
  and the response.
\<close>

definition login_cookieOptions :: "env \<Rightarrow> bool \<Rightarrow> cookieOptions" where
  "login_cookieOptions E rememberMe =
     \<lparr>httpOnly = True, secure = (NODE_ENV E = Some ''production''), sameSite = ''strict'',
      maxAge = (if rememberMe then 30 * 24 * 60 * 60 * 1000 else 7 * 24 * 60 * 60 * 1000)\<rparr>"

definition login_decide :: "lib \<Rightarrow> env \<Rightarrow> user option \<Rightarrow> request \<Rightarrow> int \<Rightarrow> db_write \<times> response" where
  "login_decide L E found req now =
     (case found of
        None \<Rightarrow>
          (None, failure_tip 401 ''Invalid email/phone or password''
                   ''Make sure you entered the correct credentials, or create a new account'')
      | Some user \<Rightarrow>
          if isLocked user now
          then (None, failure_tip 423
                   ''Account temporarily locked due to multiple failed login attempts''
                   ''Please try again later or reset your password'')
          else if status user = suspended
          then (None, failure_tip 403 ''Your account has been suspended''
                   ''Please contact our support team for assistance'')
          else if \<not> comparePassword L user (body_password req)
          then (Some (user_id user, incLoginAttempts user now),
                failure_tip 401 ''Invalid email/phone or password''
                   ''Double-check your password or use the forgot password option'')
          else
            (Some (user_id user,
                   resetLoginAttempts \<lparr>ipAddress = req_ip req, userAgent = req_userAgent req,
                                       location = Some (''Unknown'', ''India'')\<rparr> now),
             (json 200 True)
               \<lparr>message := Some (''Welcome back, '' @ name user @ ''!''),
                data_user := Some user,
                accessToken := Some (generateAuthToken E user now),
                expiresIn := Some (or_default (JWT_EXPIRE E) ''1h''),
                cookie_refreshToken :=
                  Some (generateRefreshToken E user now,
                        login_cookieOptions E (body_rememberMe req))\<rparr>))"

definition login :: "lib \<Rightarrow> env \<Rightarrow> store \<Rightarrow> request \<Rightarrow> int \<Rightarrow> store \<times> response" where
  "login L E s req now =
     (if validationErrors req \<noteq> []
      then (s, (failure 400 ''Please provide valid login credentials'')
                 \<lparr>details := validationErrors req\<rparr>)
      else (let (w, res) = login_decide L E (findByEmailOrPhone s (body_identifier req)) req now
            in (apply_write s w, res)))"

subsection \<open>POST /login, with its two clock reads apart\<close>

text \<open>
  The handler reads the clock in \<open>user.isLocked\<close>, awaits \<open>comparePassword\<close>, and reads it
  again in \<open>incLoginAttempts\<close> or \<open>resetLoginAttempts\<close>: \<open>now\<close> is the first read, \<open>later\<close>
  the reads after the comparison. How far apart they are depends on the comparison.
  The chain of the route only tests that the password is not empty, so its JSON value
  reaches the handler as it was sent, a number or a boolean included. For a string
  \<open>bcrypt.compare\<close> runs the hash at the cost stored in the account's hash. A candidate that is
  no string it refuses before hashing anything (Illegal arguments); the \<open>catch\<close> of
  \<open>comparePassword\<close> logs that and returns false, and both reads can fall in one millisecond.
\<close>

datatype json_value = JString string | JNumber int | JBoolean bool

definition comparePassword_json :: "lib \<Rightarrow> user \<Rightarrow> json_value \<Rightarrow> bool" where
  "comparePassword_json L this candidatePassword =
     (if password this = [] then False
      else (case candidatePassword of
              JString c \<Rightarrow> bcrypt_compare L c (password this)
            | _ \<Rightarrow> False))"

definition login_decide_at ::
  "lib \<Rightarrow> env \<Rightarrow> user option \<Rightarrow> request \<Rightarrow> json_value \<Rightarrow> int \<Rightarrow> int \<Rightarrow> db_write \<times> response" where
  "login_decide_at L E found req pw now later =
     (case found of
        None \<Rightarrow>
          (None, failure_tip 401 ''Invalid email/phone or password''
                   ''Make sure you entered the correct credentials, or create a new account'')
      | Some user \<Rightarrow>
          if isLocked user now
          then (None, failure_tip 423
                   ''Account temporarily locked due to multiple failed login attempts''
                   ''Please try again later or reset your password'')
          else if status user = suspended
          then (None, failure_tip 403 ''Your account has been suspended''
                   ''Please contact our support team for assistance'')
          else if \<not> comparePassword_json L user pw
          then (Some (user_id user, incLoginAttempts user later),
                failure_tip 401 ''Invalid email/phone or password''
                   ''Double-check your password or use the forgot password option'')
          else
            (Some (user_id user,
                   resetLoginAttempts \<lparr>ipAddress = req_ip req, userAgent = req_userAgent req,
                                       location = Some (''Unknown'', ''India'')\<rparr> later),
             (json 200 True)
               \<lparr>message := Some (''Welcome back, '' @ name user @ ''!''),
                data_user := Some user,
                accessToken := Some (generateAuthToken E user later),
                expiresIn := Some (or_default (JWT_EXPIRE E) ''1h''),
                cookie_refreshToken :=
                  Some (generateRefreshToken E user later,
                        login_cookieOptions E (body_rememberMe req))\<rparr>))"

text \<open>\<open>pw\<close> is \<open>req.body.password\<close>; the field \<open>body_password\<close> of \<open>req\<close> is not read.\<close>

definition login_at ::
  "lib \<Rightarrow> env \<Rightarrow> store \<Rightarrow> request \<Rightarrow> json_value \<Rightarrow> int \<Rightarrow> int \<Rightarrow> store \<times> response" where
  "login_at L E s req pw now later =
     (if validationErrors req \<noteq> []
      then (s, (failure 400 ''Please provide valid login credentials'')
                 \<lparr>details := validationErrors req\<rparr>)
      else (let (w, res) =
                  login_decide_at L E (findByEmailOrPhone s (body_identifier req)) req pw now later
            in (apply_write s w, res)))"

subsection \<open>GET /me, POST /refresh, POST /logout\<close>

definition me :: "store \<Rightarrow> request \<Rightarrow> store \<times> response" where
  "me s req =
     (case findById s (req_user_id req) of
        None \<Rightarrow> (s, failure 404 ''User not found'')
      | Some user \<Rightarrow> (s, (json 200 True)\<lparr>data_user := Some user\<rparr>))"

text \<open>
  \<open>req.cookies.refreshToken || req.body.refreshToken\<close>: where \<open>req.cookies\<close> is undefined,
  reading its \<open>refreshToken\<close> throws a TypeError.
\<close>

datatype js_error = TypeError

definition presented_refreshToken :: "request \<Rightarrow> js_error + jwt option" where
  "presented_refreshToken req =
     (case req_cookies req of
        None \<Rightarrow> Inl TypeError
      | Some c \<Rightarrow> Inr (case c of Some t \<Rightarrow> Some t | None \<Rightarrow> body_refreshToken req))"

text \<open>
  The whole handler is one \<open>try\<close>: the TypeError of the first line, the error
  \<open>jwt.verify\<close> throws on a token it refuses, and the one \<open>User.findById\<close> throws on an id
  that is no ObjectId all end in the \<open>catch\<close>, which answers 401 with
  \<open>Invalid refresh token\<close>.
\<close>

definition refresh :: "lib \<Rightarrow> env \<Rightarrow> store \<Rightarrow> request \<Rightarrow> int \<Rightarrow> store \<times> response" where
  "refresh L E s req now =
     (case presented_refreshToken req of
        Inl e \<Rightarrow> (s, failure 401 ''Invalid refresh token'')
      | Inr None \<Rightarrow> (s, failure 401 ''Refresh token is required'')
      | Inr (Some presented) \<Rightarrow>
          (case jwt_verify L presented (JWT_REFRESH_SECRET E) now of
             None \<Rightarrow> (s, failure 401 ''Invalid refresh token'')
           | Some decoded \<Rightarrow>
               (case map_of decoded ''id'' of
                  Some (JId i) \<Rightarrow>
                    (case findById s i of
                       None \<Rightarrow> (s, failure 401 ''Invalid refresh token'')
                     | Some user \<Rightarrow>
                         if status user \<noteq> active
                         then (s, failure 401 ''Invalid refresh token'')
                         else (s, (json 200 True)
                                    \<lparr>accessToken := Some (generateAuthToken E user now),
                                     expiresIn := Some (or_default (JWT_EXPIRE E) ''1h'')\<rparr>))
                | _ \<Rightarrow> (s, failure 401 ''Invalid refresh token''))))"

definition logout :: "store \<Rightarrow> request \<Rightarrow> store \<times> response" where
  "logout s req =
     (s, (json 200 True)\<lparr>message := Some ''Logged out successfully. Safe travels!'',
                          clearCookie_refreshToken := True\<rparr>)"

subsection \<open>POST /forgot-password, POST /reset-password/:token\<close>

definition forgot_response :: response where
  "forgot_response = (json 200 True)
     \<lparr>message := Some ''If an account with this email exists, you will receive a password reset link shortly.''\<rparr>"

text \<open>\<open>user.save()\<close> of a loaded document writes the paths that were modified: here the
  two reset-token paths.\<close>

definition forgot_password :: "lib \<Rightarrow> store \<Rightarrow> request \<Rightarrow> string \<Rightarrow> int \<Rightarrow> store \<times> response" where
  "forgot_password L s req token now =
     (if validationErrors req \<noteq> []
      then (s, failure 400 ''Please provide a valid email address'')
      else
        (case findOne (\<lambda>u. email u = toLowerCase (body_email req)) s of
           None \<Rightarrow> (s, forgot_response)
         | Some user \<Rightarrow>
             (let user' = generatePasswordResetToken L user token now
              in (updateOne s (user_id user)
                    (\<lambda>d. d\<lparr>passwordResetToken := passwordResetToken user',
                            passwordResetExpires := passwordResetExpires user'\<rparr>),
                  forgot_response))))"

definition reset_find :: "lib \<Rightarrow> store \<Rightarrow> request \<Rightarrow> int \<Rightarrow> user option" where
  "reset_find L s req now =
     (let hashedToken = sha256_hex L (params_token req)
      in findOne (\<lambda>u. passwordResetToken u = Some hashedToken \<and>
                      (case passwordResetExpires u of None \<Rightarrow> False | Some t \<Rightarrow> t > now)) s)"

text \<open>No two documents store the hash \<open>h\<close> as their reset token: the tokens are 32 random
  bytes each.\<close>

definition reset_hash_unique :: "store \<Rightarrow> string \<Rightarrow> bool" where
  "reset_hash_unique s h =
     (\<forall>v \<in> set s. \<forall>w \<in> set s.
        passwordResetToken v = Some h \<and> passwordResetToken w = Some h \<longrightarrow> v = w)"

text \<open>
  The save of the reset writes the modified paths in one update: the password (validated,
  then hashed by the hook), the two token paths, which are removed, and the two lockout paths
  where the assignment changed the loaded value.
\<close>

definition reset_update :: "lib \<Rightarrow> user \<Rightarrow> string \<Rightarrow> string \<Rightarrow> (user \<Rightarrow> user)" where
  "reset_update L user pw salt =
     (\<lambda>d. let d1 = d\<lparr>password := bcrypt_hash L pw salt,
                       passwordResetToken := None,
                       passwordResetExpires := None\<rparr>;
              d2 = (if loginAttempts_count user \<noteq> 0 then d1\<lparr>loginAttempts_count := 0\<rparr> else d1)
          in if loginAttempts_lockUntil user \<noteq> None then d2\<lparr>loginAttempts_lockUntil := None\<rparr>
             else d2)"

definition reset_decide :: "lib \<Rightarrow> user option \<Rightarrow> request \<Rightarrow> string \<Rightarrow> db_write \<times> response" where
  "reset_decide L found req salt =
     (case found of
        None \<Rightarrow>
          (None, failure_tip 400 ''Invalid or expired password reset token''
                   ''Please request a new password reset link'')
      | Some user \<Rightarrow>
          if \<not> validate_password (body_password req)
          then (None, failure 500 ''Failed to reset password'')
          else (Some (user_id user, reset_update L user (body_password req) salt),
                (json 200 True)
                  \<lparr>message := Some ''Password reset successfully! You can now log in with your new password.''\<rparr>))"

definition reset_password :: "lib \<Rightarrow> store \<Rightarrow> request \<Rightarrow> string \<Rightarrow> int \<Rightarrow> store \<times> response" where
  "reset_password L s req salt now =
     (if validationErrors req \<noteq> []
      then (s, (failure 400 ''Please check your password requirements'')
                 \<lparr>details := validationErrors req\<rparr>)
      else (let (w, res) = reset_decide L (reset_find L s req now) req salt
            in (apply_write s w, res)))"

subsection \<open>Responses the statements name\<close>

text \<open>The bodies of the failed-password branch and of the lock check of the login handler,
  and of the token lookup of the reset handler.\<close>

definition wrong_password_401 :: response where
  "wrong_password_401 = failure_tip 401 ''Invalid email/phone or password''
       ''Double-check your password or use the forgot password option''"

definition locked_423 :: response where
  "locked_423 = failure_tip 423
       ''Account temporarily locked due to multiple failed login attempts''
       ''Please try again later or reset your password''"

definition invalid_token_400 :: response where
  "invalid_token_400 = failure_tip 400 ''Invalid or expired password reset token''
                   ''Please request a new password reset link''"

subsection \<open>The operations of the core\<close>

text \<open>
  server.js installs no cookie parser before it mounts the router, so \<open>req.cookies\<close> is
  undefined on every request that reaches a handler. Of the handlers only \<open>refresh\<close> reads
  it.
\<close>

definition server_js :: "request \<Rightarrow> request" where
  "server_js req = req\<lparr>req_cookies := None\<rparr>"

datatype core_op =
    Register request nat string string
  | Login request
  | Me request
  | Refresh request
  | Logout request
  | ForgotPassword request string
  | ResetPassword request string

fun step :: "lib \<Rightarrow> env \<Rightarrow> store \<Rightarrow> core_op \<Rightarrow> int \<Rightarrow> store \<times> response" where
  "step L E s (Register req newId token salt) now = register L E s req newId token salt now"
| "step L E s (Login req) now = login L E s req now"
| "step L E s (Me req) now = me s req"
| "step L E s (Refresh req) now = refresh L E s (server_js req) now"
| "step L E s (Logout req) now = logout s req"
| "step L E s (ForgotPassword req token) now = forgot_password L s req token now"
| "step L E s (ResetPassword req salt) now = reset_password L s req salt now"

text \<open>
  Consecutive failed verifications of one account, each at its own instant: the document
  is loaded, \<open>incLoginAttempts\<close> decides on it, and the update is applied to it.
\<close>

fun failed_verifications :: "user \<Rightarrow> int list \<Rightarrow> user" where
  "failed_verifications u [] = u"
| "failed_verifications u (t # ts) = failed_verifications (incLoginAttempts u t u) ts"

subsection \<open>Two requests in flight\<close>

text \<open>
  A handler runs until it awaits the collection, and other handlers run meanwhile. Two
  requests that passed validation can be handled one after the other, or both queries can
  be answered before either update is applied. A request that fails validation never
  awaits the collection.
\<close>

definition login_sequential ::
  "lib \<Rightarrow> env \<Rightarrow> store \<Rightarrow> request \<Rightarrow> int \<Rightarrow> request \<Rightarrow> int \<Rightarrow> store \<times> response \<times> response" where
  "login_sequential L E s reqA nowA reqB nowB =
     (let (s1, resA) = login L E s reqA nowA;
          (s2, resB) = login L E s1 reqB nowB
      in (s2, resA, resB))"

definition login_interleaved ::
  "lib \<Rightarrow> env \<Rightarrow> store \<Rightarrow> request \<Rightarrow> int \<Rightarrow> request \<Rightarrow> int \<Rightarrow> store \<times> response \<times> response" where
  "login_interleaved L E s reqA nowA reqB nowB =
     (if validationErrors reqA \<noteq> [] \<or> validationErrors reqB \<noteq> []
      then login_sequential L E s reqA nowA reqB nowB
      else (let (wA, resA) = login_decide L E (findByEmailOrPhone s (body_identifier reqA)) reqA nowA;
                (wB, resB) = login_decide L E (findByEmailOrPhone s (body_identifier reqB)) reqB nowB
            in (apply_write (apply_write s wA) wB, resA, resB)))"

definition reset_sequential ::
  "lib \<Rightarrow> store \<Rightarrow> request \<Rightarrow> string \<Rightarrow> int \<Rightarrow> request \<Rightarrow> string \<Rightarrow> int
    \<Rightarrow> store \<times> response \<times> response" where
  "reset_sequential L s reqA saltA nowA reqB saltB nowB =
     (let (s1, resA) = reset_password L s reqA saltA nowA;
          (s2, resB) = reset_password L s1 reqB saltB nowB
      in (s2, resA, resB))"

definition reset_interleaved ::
  "lib \<Rightarrow> store \<Rightarrow> request \<Rightarrow> string \<Rightarrow> int \<Rightarrow> request \<Rightarrow> string \<Rightarrow> int
    \<Rightarrow> store \<times> response \<times> response" where
  "reset_interleaved L s reqA saltA nowA reqB saltB nowB =
     (if validationErrors reqA \<noteq> [] \<or> validationErrors reqB \<noteq> []
      then reset_sequential L s reqA saltA nowA reqB saltB nowB
      else (let (wA, resA) = reset_decide L (reset_find L s reqA nowA) reqA saltA;
                (wB, resB) = reset_decide L (reset_find L s reqB nowB) reqB saltB
            in (apply_write (apply_write s wA) wB, resA, resB)))"

text \<open>Login requests handled one after the other, each at its own instant.\<close>

fun login_run :: "lib \<Rightarrow> env \<Rightarrow> store \<Rightarrow> (request \<times> int) list \<Rightarrow> store \<times> response list" where
  "login_run L E s [] = (s, [])"
| "login_run L E s ((req, now) # rs) =
     (let (s1, res) = login L E s req now;
          (s2, ress) = login_run L E s1 rs
      in (s2, res # ress))"

subsection \<open>Sample values\<close>

text \<open>A toy library, a configuration, an account and a request, for evaluating the
  model on concrete inputs.\<close>

definition toy_lib :: lib where
  "toy_lib = \<lparr>bcrypt_compare = (\<lambda>c h. h = ''hash:'' @ c),
              bcrypt_hash = (\<lambda>p salt. ''hash:'' @ p),
              sha256_hex = (\<lambda>t. ''sha:'' @ t),
              jwt_verify = (\<lambda>tok sec now. if jwt_secret tok = sec then Some (jwt_payload tok) else None)\<rparr>"

definition default_env :: env where
  "default_env = \<lparr>JWT_SECRET = ''s1'', JWT_REFRESH_SECRET = ''s2'', JWT_EXPIRE = None,
                  JWT_REFRESH_EXPIRE = None, NODE_ENV = None\<rparr>"

definition alice :: user where
  "alice = \<lparr>user_id = 1, name = ''Alice'', email = ''alice@example.com'',
            phone = ''+919876543210'', password = ''hash:Secret123'',
            role = passenger, status = active,
            isEmailVerified = False, isPhoneVerified = False,
            loginAttempts_count = 0, loginAttempts_lockUntil = None, loginAttempts_resetAt = None,
            lastLogin_timestamp = None, lastLogin_ipAddress = [], lastLogin_userAgent = [],
            lastLogin_location = None,
            emailVerificationToken = None, emailVerificationExpires = None,
            passwordResetToken = None, passwordResetExpires = None\<rparr>"

definition blank_request :: request where
  "blank_request = \<lparr>validationErrors = [], body_name = [], body_email = [], body_phone = [],
     body_password = [], body_identifier = [], body_rememberMe = False,
     body_refreshToken = None, req_cookies = None, params_token = [],
     req_ip = [], req_userAgent = [], req_user_id = 0\<rparr>"

definition login_request :: "string \<Rightarrow> string \<Rightarrow> request" where
  "login_request i p = blank_request\<lparr>body_identifier := i, body_password := p\<rparr>"

definition erin_registration :: request where
  "erin_registration = blank_request\<lparr>body_name := ''Erin'', body_email := ''erin@example.com'',
     body_phone := ''9876543211'', body_password := ''Passw0rd1''\<rparr>"

definition five_wrong_logins :: "(request \<times> int) list" where
  "five_wrong_logins =
     [(login_request ''erin@example.com'' ''wrong'', 1000),
      (login_request ''erin@example.com'' ''wrong'', 2000),
      (login_request ''9876543211'' ''wrong'', 3000),
      (login_request ''erin@example.com'' ''wrong'', 4000),
      (login_request ''erin@example.com'' ''wrong'', 5000)]"

text \<open>A refresh request carrying the token in its body, with \<open>req.cookies\<close> undefined as
  under server.js, and one as a cookie parser would hand it to the handler.\<close>

definition refresh_request :: "jwt \<Rightarrow> request" where
  "refresh_request t = blank_request\<lparr>body_refreshToken := Some t\<rparr>"

definition parsed_cookie_request :: "jwt \<Rightarrow> request" where
  "parsed_cookie_request t = blank_request\<lparr>req_cookies := Some (Some t)\<rparr>"

definition reset_request :: "string \<Rightarrow> string \<Rightarrow> request" where
  "reset_request t p = blank_request\<lparr>params_token := t, body_password := p\<rparr>"

definition forgot_request :: "string \<Rightarrow> request" where
  "forgot_request e = blank_request\<lparr>body_email := e\<rparr>"

definition erin :: user where
  "erin = \<lparr>user_id = 7, name = ''Erin'', email = ''erin@example.com'',
      phone = ''+919876543211'', password = ''hash:Passw0rd1'',
      role = passenger, status = pending_verification,
      isEmailVerified = False, isPhoneVerified = False,
      loginAttempts_count = 0, loginAttempts_lockUntil = None,
      loginAttempts_resetAt = None, lastLogin_timestamp = None,
      lastLogin_ipAddress = [], lastLogin_userAgent = [],
      lastLogin_location = None, emailVerificationToken = Some ''sha:tok'',
      emailVerificationExpires = Some 86400000, passwordResetToken = None,
      passwordResetExpires = None\<rparr>"

definition alice_remembered :: request where
  "alice_remembered = (login_request ''alice@example.com'' ''Secret123'')\<lparr>body_rememberMe := True\<rparr>"

definition alice_t1 :: user where
  "alice_t1 = alice\<lparr>passwordResetToken := Some ''sha:t1'', passwordResetExpires := Some 601000\<rparr>"

definition alice_t2 :: user where
  "alice_t2 = alice\<lparr>passwordResetToken := Some ''sha:t2'', passwordResetExpires := Some 605000\<rparr>"

definition alice_new :: user where
  "alice_new = alice\<lparr>password := ''hash:NewPass123''\<rparr>"

definition alice_number_login :: request where
  "alice_number_login = blank_request\<lparr>body_identifier := ''alice@example.com''\<rparr>"

definition alice_at_expiry :: user where
  "alice_at_expiry = alice\<lparr>loginAttempts_count := 5, loginAttempts_lockUntil := Some 1000\<rparr>"

definition alice_expired :: user where
  "alice_expired = alice\<lparr>loginAttempts_count := 5, loginAttempts_lockUntil := Some 500\<rparr>"

definition alice_three :: user where
  "alice_three = alice\<lparr>loginAttempts_count := 3\<rparr>"

definition alice_wrong :: request where
  "alice_wrong = login_request ''alice@example.com'' ''wrong''"

section \<open>The collection and the lookups\<close>

lemma incLoginAttempts_frame:
  "user_id (incLoginAttempts this now d) = user_id d"
  "email (incLoginAttempts this now d) = email d"
  "phone (incLoginAttempts this now d) = phone d"
  "password (incLoginAttempts this now d) = password d"
  "status (incLoginAttempts this now d) = status d"
  by (simp_all add: incLoginAttempts_def)

lemma find_updateOne:
  assumes "distinct (map user_id s)" and "find P s = Some u"
    and "P (f u)" and "user_id (f u) = user_id u"
  shows "find P (updateOne s (user_id u) f) = Some (f u)"
  using assms
proof (induction s)
  case Nil
  then show ?case by simp
next
  case (Cons d ds)
  show ?case
  proof (cases "P d")
    case True
    with Cons.prems(2) have "d = u" by simp
    with Cons.prems(3) show ?thesis by simp
  next
    case False
    with Cons.prems(2) have found: "find P ds = Some u" by simp
    then have "u \<in> set ds"
      by (auto simp: find_Some_iff)
    with Cons.prems(1) have "user_id d \<noteq> user_id u"
      by auto
    moreover from Cons.prems(1) have "distinct (map user_id ds)" by simp
    ultimately show ?thesis
      using Cons.IH [OF _ found Cons.prems(3) Cons.prems(4)] False by simp
  qed
qed

lemma map_user_id_updateOne:
  "(\<And>d. user_id (f d) = user_id d) \<Longrightarrow> map user_id (updateOne s i f) = map user_id s"
  by (induction s) simp_all

lemma findByEmailOrPhone_find:
  "findByEmailOrPhone s ident =
     find (\<lambda>u. if emailRegex_test ident then email u = toLowerCase ident
               else phone u = stripSpacesHyphens ident \<or>
                    phone u = ''+91'' @ stripSpacesHyphens ident) s"
  by (simp add: findByEmailOrPhone_def findOne_def Let_def)

lemma findByEmailOrPhone_updateOne:
  assumes "distinct (map user_id s)" and "findByEmailOrPhone s ident = Some u"
    and "email (f u) = email u" and "phone (f u) = phone u" and "user_id (f u) = user_id u"
  shows "findByEmailOrPhone (updateOne s (user_id u) f) ident = Some (f u)"
proof -
  let ?P = "\<lambda>u. if emailRegex_test ident then email u = toLowerCase ident
               else phone u = stripSpacesHyphens ident \<or>
                    phone u = ''+91'' @ stripSpacesHyphens ident"
  from assms(2) have f: "find ?P s = Some u"
    by (simp only: findByEmailOrPhone_find)
  then have "?P u"
    by (auto simp: find_Some_iff)
  with assms(3,4) have "?P (f u)"
    by (cases "emailRegex_test ident") simp_all
  with find_updateOne [of s ?P u f] assms(1) f assms(5)
  show ?thesis
    by (simp only: findByEmailOrPhone_find)
qed

lemma login_wrong_password:
  assumes "validationErrors req = []"
    and "findByEmailOrPhone s (body_identifier req) = Some u"
    and "\<not> isLocked u now" and "status u \<noteq> suspended"
    and "\<not> comparePassword L u (body_password req)"
  shows "login L E s req now =
    (updateOne s (user_id u) (incLoginAttempts u now),
     failure_tip 401 ''Invalid email/phone or password''
       ''Double-check your password or use the forgot password option'')"
  using assms by (simp add: login_def login_decide_def apply_write_def)

lemma login_locked:
  assumes "validationErrors req = []"
    and "findByEmailOrPhone s (body_identifier req) = Some u"
    and "isLocked u now"
  shows "login L E s req now =
    (s, failure_tip 423 ''Account temporarily locked due to multiple failed login attempts''
          ''Please try again later or reset your password'')"
  using assms by (simp add: login_def login_decide_def apply_write_def)

lemma failed_verifications_snoc:
  "failed_verifications u (ts @ [t]) =
     incLoginAttempts (failed_verifications u ts) t (failed_verifications u ts)"
  by (induction ts arbitrary: u) simp_all

lemma comparePassword_cong:
  "password u' = password u \<Longrightarrow> comparePassword L u' pw = comparePassword L u pw"
  by (simp add: comparePassword_def)

lemma login_run_wrong:
  assumes "distinct (map user_id s)"
    and "\<forall>(req, t) \<in> set rs. validationErrors req = [] \<and>
           findByEmailOrPhone s (body_identifier req) = Some u \<and>
           \<not> comparePassword L u (body_password req)"
    and "status u \<noteq> suspended"
    and "rs = [] \<or> (loginAttempts_lockUntil u = None \<and>
           loginAttempts_count u + int (length rs) \<le> maxAttempts)"
  shows "\<exists>s'. login_run L E s rs = (s', replicate (length rs) wrong_password_401) \<and>
           distinct (map user_id s') \<and>
           (\<forall>ident. findByEmailOrPhone s ident = Some u \<longrightarrow>
              findByEmailOrPhone s' ident = Some (failed_verifications u (map snd rs)))"
  using assms
proof (induction rs arbitrary: s u)
  case Nil
  then show ?case by simp
next
  case (Cons r rs)
  obtain req t where r: "r = (req, t)" by (cases r)
  let ?u1 = "incLoginAttempts u t u"
  let ?s1 = "updateOne s (user_id u) (incLoginAttempts u t)"
  from Cons.prems(2) r have req: "validationErrors req = []"
    "findByEmailOrPhone s (body_identifier req) = Some u"
    "\<not> comparePassword L u (body_password req)"
    by simp_all
  from Cons.prems(4) have unl: "loginAttempts_lockUntil u = None"
    and cnt: "loginAttempts_count u + 1 + int (length rs) \<le> maxAttempts"
    by simp_all
  from unl have "\<not> isLocked u t"
    by (simp add: isLocked_def)
  with req Cons.prems(3) have step: "login L E s req t = (?s1, wrong_password_401)"
    unfolding wrong_password_401_def by (simp add: login_wrong_password)
  have d1: "distinct (map user_id ?s1)"
    using Cons.prems(1) by (simp add: map_user_id_updateOne incLoginAttempts_frame)
  have look: "findByEmailOrPhone ?s1 ident = Some ?u1"
    if "findByEmailOrPhone s ident = Some u" for ident
    using findByEmailOrPhone_updateOne [OF Cons.prems(1) that, of "incLoginAttempts u t"]
    by (simp add: incLoginAttempts_frame)
  have rest: "\<forall>(req, t) \<in> set rs. validationErrors req = [] \<and>
           findByEmailOrPhone ?s1 (body_identifier req) = Some ?u1 \<and>
           \<not> comparePassword L ?u1 (body_password req)"
    using Cons.prems(2) look
    by (auto simp: comparePassword_cong [of ?u1 u] incLoginAttempts_frame)
  have st: "status ?u1 \<noteq> suspended"
    using Cons.prems(3) by (simp add: incLoginAttempts_frame)
  have inv: "rs = [] \<or> (loginAttempts_lockUntil ?u1 = None \<and>
           loginAttempts_count ?u1 + int (length rs) \<le> maxAttempts)"
  proof (cases "rs = []")
    case True
    then show ?thesis by simp
  next
    case False
    then have "1 \<le> int (length rs)" by (cases rs) simp_all
    with cnt have "\<not> maxAttempts \<le> loginAttempts_count u + 1" by linarith
    with cnt unl show ?thesis
      by (simp add: incLoginAttempts_def)
  qed
  from Cons.IH [OF d1 rest st inv] obtain s' where
    run: "login_run L E ?s1 rs = (s', replicate (length rs) wrong_password_401)"
    and d': "distinct (map user_id s')"
    and l': "\<forall>ident. findByEmailOrPhone ?s1 ident = Some ?u1 \<longrightarrow>
              findByEmailOrPhone s' ident = Some (failed_verifications ?u1 (map snd rs))"
    by blast
  have "login_run L E s (r # rs) = (s', replicate (length (r # rs)) wrong_password_401)"
    using step run r by simp
  moreover have "\<forall>ident. findByEmailOrPhone s ident = Some u \<longrightarrow>
      findByEmailOrPhone s' ident = Some (failed_verifications u (map snd (r # rs)))"
    using look l' r by simp
  ultimately show ?case
    using d' by blast
qed

section \<open>Lockout state machine\<close>

lemma failed_verifications_unlocked:
  "loginAttempts_lockUntil u = None \<Longrightarrow> loginAttempts_count u + int (length ts) < maxAttempts \<Longrightarrow>
   loginAttempts_lockUntil (failed_verifications u ts) = None \<and>
   loginAttempts_count (failed_verifications u ts) = loginAttempts_count u + int (length ts)"
proof (induction ts arbitrary: u)
  case Nil
  then show ?case by simp
next
  case (Cons t ts)
  let ?v = "incLoginAttempts u t u"
  from Cons.prems have small: "\<not> loginAttempts_count u + 1 \<ge> maxAttempts"
    by simp
  with Cons.prems(1) have v: "loginAttempts_lockUntil ?v = None"
    "loginAttempts_count ?v = loginAttempts_count u + 1"
    by (simp_all add: incLoginAttempts_def)
  with Cons.prems(2) have "loginAttempts_count ?v + int (length ts) < maxAttempts"
    by simp
  from Cons.IH [OF v(1) this] v(2) show ?case
    by simp
qed

text \<open>
  C1. Starting from an account with no failures recorded and no lock stored, four
  consecutive failed verifications (at any instants) leave it unlocked with
  \<open>loginAttempts.count = 4\<close> and no \<open>lockUntil\<close>; the fifth, at instant \<open>t5\<close>, makes
  the count 5 and sets \<open>lockUntil\<close> to \<open>t5\<close> plus two hours, so the account is locked.
\<close>

theorem lock_on_fifth_failure:
  assumes "loginAttempts_count u = 0" and "loginAttempts_lockUntil u = None"
    and "length ts = 4"
  shows "loginAttempts_count (failed_verifications u ts) = 4
    \<and> loginAttempts_lockUntil (failed_verifications u ts) = None
    \<and> \<not> isLocked (failed_verifications u ts) t
    \<and> loginAttempts_count (failed_verifications u (ts @ [t5])) = 5
    \<and> loginAttempts_lockUntil (failed_verifications u (ts @ [t5])) = Some (t5 + 7200000)
    \<and> isLocked (failed_verifications u (ts @ [t5])) t5"
proof -
  let ?u4 = "failed_verifications u ts"
  have four: "loginAttempts_lockUntil ?u4 = None \<and> loginAttempts_count ?u4 = 4"
    using failed_verifications_unlocked [of u ts] assms by (simp add: maxAttempts_def)
  have app: "failed_verifications u (ts @ [t5]) = incLoginAttempts ?u4 t5 ?u4"
    by (induction ts arbitrary: u) simp_all
  show ?thesis
    using four by (simp add: app incLoginAttempts_def isLocked_def maxAttempts_def lockTime_def)
qed

theorem lock_on_fifth_failure_witness:
  "loginAttempts_count alice = 0 \<and> loginAttempts_lockUntil alice = None
    \<and> loginAttempts_count (failed_verifications alice [1000, 2000, 3000, 4000]) = 4
    \<and> loginAttempts_lockUntil (failed_verifications alice [1000, 2000, 3000, 4000]) = None
    \<and> \<not> isLocked (failed_verifications alice [1000, 2000, 3000, 4000]) 4500
    \<and> loginAttempts_count (failed_verifications alice ([1000, 2000, 3000, 4000] @ [5000])) = 5
    \<and> loginAttempts_lockUntil (failed_verifications alice ([1000, 2000, 3000, 4000] @ [5000]))
        = Some 7205000
    \<and> isLocked (failed_verifications alice ([1000, 2000, 3000, 4000] @ [5000])) 5000"
proof -
  have h: "loginAttempts_count alice = 0" "loginAttempts_lockUntil alice = None"
    by (simp_all add: alice_def)
  have l: "length [1000, 2000, 3000, 4000 :: int] = 4"
    by simp
  from lock_on_fifth_failure [OF h l, of 4500 5000] h show ?thesis
    by simp
qed

section \<open>Registration\<close>

lemma find_append_existing:
  "find P s = Some u \<Longrightarrow> find P (s @ t) = Some u"
  by (induction s) (simp_all split: if_splits)

lemma find_append_fresh:
  "find P s = None \<Longrightarrow> find P (s @ t) = find P t"
  by (induction s) (simp_all split: if_splits)

lemma new_User_sel:
  "user_id (new_User newId n e p pw) = newId"
  "status (new_User newId n e p pw) = pending_verification"
  "loginAttempts_count (new_User newId n e p pw) = 0"
  by (simp_all add: new_User_def)

lemma generateEmailVerificationToken_sel:
  "user_id (generateEmailVerificationToken L this token now) = user_id this"
  "status (generateEmailVerificationToken L this token now) = status this"
  "loginAttempts_count (generateEmailVerificationToken L this token now) = loginAttempts_count this"
  by (simp_all add: generateEmailVerificationToken_def)

lemma pre_save_sel:
  "user_id (pre_save_phone (pre_save_password L salt this)) = user_id this"
  "status (pre_save_phone (pre_save_password L salt this)) = status this"
  "loginAttempts_count (pre_save_phone (pre_save_password L salt this)) = loginAttempts_count this"
  by (simp_all add: pre_save_phone_def pre_save_password_def Let_def)

lemma save_new_Inr:
  assumes "save_new L salt s this = Inr (s', doc)"
  shows "s' = s @ [doc]" and "user_id doc = user_id this" and "status doc = status this"
    and "loginAttempts_count doc = loginAttempts_count this"
proof -
  from assms have doc: "doc = pre_save_phone (pre_save_password L salt this)"
    and s': "s' = s @ [doc]"
    by (auto simp: save_new_def Let_def split: if_splits)
  from s' show "s' = s @ [doc]" .
  from doc show "user_id doc = user_id this" and "status doc = status this"
    and "loginAttempts_count doc = loginAttempts_count this"
    by (simp_all only: pre_save_sel)
qed

text \<open>The shape of register: every branch but the last leaves the collection alone and
  answers 400 or 500.\<close>

lemma register_cases:
  obtains (refused) res where "register L E s req newId token salt now = (s, res)"
      "statusCode res = 400 \<or> statusCode res = 500"
      "refreshToken res = None" "cookie_refreshToken res = None"
  | (created) s' doc this where
      "save_new L salt s this = Inr (s', doc)"
      "user_id this = newId" "status this = pending_verification"
      "loginAttempts_count this = 0"
      "register L E s req newId token salt now =
         (s', (json 201 True)
                \<lparr>message := Some ''Welcome to Indian Railways Smart Platform!'',
                 data_user := Some doc,
                 accessToken := Some (generateAuthToken E doc now),
                 refreshToken := Some (generateRefreshToken E doc now),
                 expiresIn := Some (or_default (JWT_EXPIRE E) ''1h''),
                 tips := [''Please verify your email address to unlock all features'',
                          ''Complete your profile for a better experience'',
                          ''Enable 2FA for enhanced security'']\<rparr>)"
proof (cases "validationErrors req \<noteq> []")
  case True
  then have "register L E s req newId token salt now =
      (s, (failure 400 ''Please check your input and try again'')\<lparr>details := validationErrors req\<rparr>)"
    by (simp add: register_def)
  then show ?thesis
    by (rule refused) (simp_all add: failure_def json_def)
next
  case noerr: False
  let ?q = "findOne (\<lambda>u. email u = toLowerCase (body_email req) \<or>
                            phone u = body_phone req \<or>
                            phone u = ''+91'' @ body_phone req) s"
  show ?thesis
  proof (cases ?q)
    case (Some existingUser)
    with noerr have "register L E s req newId token salt now =
      (s, failure_tip 400 ''An account with this email or phone number already exists''
                   ''Try logging in instead, or use the forgot password option if you forgot your credentials'')"
      by (simp add: register_def)
    then show ?thesis
      by (rule refused) (simp_all add: failure_tip_def json_def)
  next
    case None
    let ?new = "generateEmailVerificationToken L
        (new_User newId (trim (body_name req)) (toLowerCase (body_email req))
                            (if startsWith (body_phone req) ''+91'' then body_phone req
                             else ''+91'' @ body_phone req)
                            (body_password req)) token now"
    have new_sel: "user_id ?new = newId" "status ?new = pending_verification"
      "loginAttempts_count ?new = 0"
      by (simp_all only: generateEmailVerificationToken_sel new_User_sel)
    show ?thesis
    proof (cases "save_new L salt s ?new")
      case (Inl e)
      show ?thesis
      proof (cases e)
        case ValidationError
        with Inl None noerr have "register L E s req newId token salt now =
          (s, failure_tip 500 ''Registration failed. Please try again.''
                           ''If this problem persists, please contact our support team'')"
          by (simp add: register_def Let_def)
        then show ?thesis
          by (rule refused) (simp_all add: failure_tip_def json_def)
      next
        case (DuplicateKey field)
        with Inl None noerr have "register L E s req newId token salt now =
          (s, failure_tip 400 (''This '' @ field @ '' is already registered'')
                           ''Try logging in or use a different email/phone number'')"
          by (simp add: register_def Let_def)
        then show ?thesis
          by (rule refused) (simp_all add: failure_tip_def json_def)
      qed
    next
      case (Inr p)
      obtain s' doc where p: "p = (s', doc)" by (cases p)
      with Inr None noerr have "register L E s req newId token salt now =
         (s', (json 201 True)
                \<lparr>message := Some ''Welcome to Indian Railways Smart Platform!'',
                 data_user := Some doc,
                 accessToken := Some (generateAuthToken E doc now),
                 refreshToken := Some (generateRefreshToken E doc now),
                 expiresIn := Some (or_default (JWT_EXPIRE E) ''1h''),
                 tips := [''Please verify your email address to unlock all features'',
                          ''Complete your profile for a better experience'',
                          ''Enable 2FA for enhanced security'']\<rparr>)"
        by (simp add: register_def Let_def)
      with Inr p new_sel show ?thesis
        by (intro created [where this = ?new and s' = s' and doc = doc]) simp_all
    qed
  qed
qed

lemma erin_registered:
  "register toy_lib default_env [] erin_registration 7 ''tok'' ''salt'' 0 =
     ([erin], (json 201 True)
                \<lparr>message := Some ''Welcome to Indian Railways Smart Platform!'',
                 data_user := Some erin,
                 accessToken := Some (generateAuthToken default_env erin 0),
                 refreshToken := Some (generateRefreshToken default_env erin 0),
                 expiresIn := Some ''1h'',
                 tips := [''Please verify your email address to unlock all features'',
                          ''Complete your profile for a better experience'',
                          ''Enable 2FA for enhanced security'']\<rparr>)"
  by code_simp

section \<open>The login route\<close>

lemma failed_verifications_fifth:
  assumes "loginAttempts_count u = 0" and "loginAttempts_lockUntil u = None"
    and "length ts = 4"
  shows "loginAttempts_count (failed_verifications u (ts @ [t5])) = 5"
    and "loginAttempts_lockUntil (failed_verifications u (ts @ [t5])) = Some (t5 + 7200000)"
proof -
  have "loginAttempts_lockUntil (failed_verifications u ts) = None \<and>
        loginAttempts_count (failed_verifications u ts) = 4"
    using failed_verifications_unlocked [of u ts] assms by (simp add: maxAttempts_def)
  then show "loginAttempts_count (failed_verifications u (ts @ [t5])) = 5"
    and "loginAttempts_lockUntil (failed_verifications u (ts @ [t5])) = Some (t5 + 7200000)"
    by (simp_all add: failed_verifications_snoc incLoginAttempts_def isLocked_def
        maxAttempts_def lockTime_def)
qed

text \<open>
  C2, as stated, fails. Erin registers (201, the collection then holds her account alone)
  and sends five login requests with a wrong password: every response, the fifth
  included, is the 401 of the failed-password branch; no response is 423.
\<close>

theorem fifth_wrong_login_is_401_counterexample:
  "fst (register toy_lib default_env [] erin_registration 7 ''tok'' ''salt'' 0) = [erin]
   \<and> statusCode (snd (register toy_lib default_env [] erin_registration 7 ''tok'' ''salt'' 0)) = 201
   \<and> map statusCode (snd (login_run toy_lib default_env [erin] five_wrong_logins))
       = [401, 401, 401, 401, 401]
   \<and> statusCode (last (snd (login_run toy_lib default_env [erin] five_wrong_logins))) \<noteq> 423"
proof -
  have "map statusCode (snd (login_run toy_lib default_env [erin] five_wrong_logins))
       = [401, 401, 401, 401, 401]"
    and "statusCode (last (snd (login_run toy_lib default_env [erin] five_wrong_logins))) \<noteq> 423"
    by code_simp+
  then show ?thesis
    by (simp add: erin_registered json_def)
qed

text \<open>
  C2, amended. On an account that is not suspended, has no failure recorded and no lock
  stored, five consecutive login requests with a wrong password are each answered with
  the 401 of the failed-password branch; the fifth sets \<open>loginAttempts.count\<close> to 5 and
  \<open>lockUntil\<close> to its own instant plus two hours.
\<close>

theorem fifth_wrong_login_locks_with_401:
  assumes "distinct (map user_id s)"
    and "\<forall>(req, t) \<in> set rs. validationErrors req = [] \<and>
           findByEmailOrPhone s (body_identifier req) = Some u \<and>
           \<not> comparePassword L u (body_password req)"
    and "status u \<noteq> suspended"
    and "loginAttempts_count u = 0" and "loginAttempts_lockUntil u = None"
    and "length rs = 5"
  shows "\<exists>s' u'. login_run L E s rs = (s', replicate 5 wrong_password_401) \<and>
           findByEmailOrPhone s' (body_identifier (fst (last rs))) = Some u' \<and>
           loginAttempts_count u' = 5 \<and>
           loginAttempts_lockUntil u' = Some (snd (last rs) + 7200000)"
proof -
  from assms(6) have ne: "rs \<noteq> []"
    by auto
  from assms(4,5,6) have "rs = [] \<or> (loginAttempts_lockUntil u = None \<and>
      loginAttempts_count u + int (length rs) \<le> maxAttempts)"
    by (simp add: maxAttempts_def)
  from login_run_wrong [OF assms(1,2,3) this, of E] assms(6) obtain s' where
    run: "login_run L E s rs = (s', replicate 5 wrong_password_401)"
    and look: "\<forall>ident. findByEmailOrPhone s ident = Some u \<longrightarrow>
      findByEmailOrPhone s' ident = Some (failed_verifications u (map snd rs))"
    by auto
  from ne assms(2) have "findByEmailOrPhone s (body_identifier (fst (last rs))) = Some u"
    using last_in_set [OF ne] by (auto simp: case_prod_unfold)
  with look have found:
    "findByEmailOrPhone s' (body_identifier (fst (last rs))) =
       Some (failed_verifications u (map snd rs))"
    by blast
  from ne have "map snd rs = map snd (butlast rs) @ [snd (last rs)]"
    by (metis append_butlast_last_id list.simps(8,9) map_append)
  moreover from assms(6) have "length (map snd (butlast rs)) = 4"
    by simp
  ultimately have "loginAttempts_count (failed_verifications u (map snd rs)) = 5"
    and "loginAttempts_lockUntil (failed_verifications u (map snd rs))
          = Some (snd (last rs) + 7200000)"
    using failed_verifications_fifth [OF assms(4,5), of "map snd (butlast rs)" "snd (last rs)"]
    by simp_all
  with run found show ?thesis
    by blast
qed

theorem fifth_wrong_login_locks_with_401_witness:
  "\<exists>s' u'. login_run toy_lib default_env [erin] five_wrong_logins
              = (s', replicate 5 wrong_password_401) \<and>
           findByEmailOrPhone s' ''erin@example.com'' = Some u' \<and>
           loginAttempts_count u' = 5 \<and>
           loginAttempts_lockUntil u' = Some 7205000"
proof -
  have h1: "distinct (map user_id [erin])"
    by code_simp
  have h2: "\<forall>(req, t) \<in> set five_wrong_logins. validationErrors req = [] \<and>
           findByEmailOrPhone [erin] (body_identifier req) = Some erin \<and>
           \<not> comparePassword toy_lib erin (body_password req)"
    by code_simp
  have h3: "status erin \<noteq> suspended"
    by code_simp
  have h4: "loginAttempts_count erin = 0"
    by code_simp
  have h5: "loginAttempts_lockUntil erin = None"
    by code_simp
  have h6: "length five_wrong_logins = 5"
    by code_simp
  have l: "snd (last five_wrong_logins) = 5000"
    "body_identifier (fst (last five_wrong_logins)) = ''erin@example.com''"
    by code_simp+
  from fifth_wrong_login_locks_with_401 [OF h1 h2 h3 h4 h5 h6, of default_env]
  show ?thesis
    unfolding l by simp
qed

text \<open>
  C3. A login request that passed validation and names an account whose \<open>lockUntil\<close> lies
  after \<open>now\<close> is answered 423 with the locked error, whatever password it presents (the
  correct one included), and the collection is left as it was: the counter and the lock of
  the account are unchanged.
\<close>

theorem locked_account_rejects_every_attempt:
  assumes "validationErrors req = []"
    and "findByEmailOrPhone s (body_identifier req) = Some u"
    and "loginAttempts_lockUntil u = Some until" and "now < until"
  shows "statusCode (snd (login L E s req now)) = 423
    \<and> error (snd (login L E s req now))
        = Some ''Account temporarily locked due to multiple failed login attempts''
    \<and> fst (login L E s req now) = s"
proof -
  from assms(3,4) have "isLocked u now"
    by (simp add: isLocked_def)
  from login_locked [OF assms(1,2) this] show ?thesis
    by (simp add: failure_tip_def json_def)
qed

theorem locked_account_rejects_every_attempt_witness:
  "comparePassword toy_lib alice ''Secret123''
   \<and> statusCode (snd (login toy_lib default_env
        [alice\<lparr>loginAttempts_count := 5, loginAttempts_lockUntil := Some 9000\<rparr>]
        (login_request ''alice@example.com'' ''Secret123'') 1000)) = 423
   \<and> fst (login toy_lib default_env
        [alice\<lparr>loginAttempts_count := 5, loginAttempts_lockUntil := Some 9000\<rparr>]
        (login_request ''alice@example.com'' ''Secret123'') 1000)
      = [alice\<lparr>loginAttempts_count := 5, loginAttempts_lockUntil := Some 9000\<rparr>]"
proof -
  let ?u = "alice\<lparr>loginAttempts_count := 5, loginAttempts_lockUntil := Some 9000\<rparr>"
  let ?req = "login_request ''alice@example.com'' ''Secret123''"
  have h1: "validationErrors ?req = []"
    by code_simp
  have h2: "findByEmailOrPhone [?u] (body_identifier ?req) = Some ?u"
    by code_simp
  have h3: "loginAttempts_lockUntil ?u = Some 9000"
    by simp
  have h4: "(1000 :: int) < 9000"
    by simp
  have c: "comparePassword toy_lib alice ''Secret123''"
    by code_simp
  from locked_account_rejects_every_attempt [OF h1 h2 h3 h4, of toy_lib default_env] c
  show ?thesis
    by simp
qed

text \<open>With the password a string and both reads at one instant, \<open>login_at\<close> is
  \<open>login\<close>.\<close>

lemma comparePassword_json_string:
  "comparePassword_json L u (JString c) = comparePassword L u c"
  by (simp add: comparePassword_json_def comparePassword_def)

lemma login_decide_at_same_instant:
  "login_decide_at L E found req (JString (body_password req)) now now =
     login_decide L E found req now"
  by (cases found)
    (simp_all add: login_decide_at_def login_decide_def comparePassword_json_string)

lemma login_at_same_instant:
  "login_at L E s req (JString (body_password req)) now now = login L E s req now"
  by (simp add: login_at_def login_def login_decide_at_same_instant)

text \<open>
  Where the second read lies after \<open>lockUntil\<close>, as it does whenever the clock has moved
  on during the comparison, the code does what C4 says: a wrong password restarts the
  counter at 1 and removes the lock, a correct one is accepted and clears counter and lock.
\<close>

lemma expired_lock_wrong_password_at:
  assumes "validationErrors req = []"
    and "findByEmailOrPhone s (body_identifier req) = Some u"
    and "loginAttempts_lockUntil u = Some until" and "until \<le> now" and "until < later"
    and "status u \<noteq> suspended"
    and "\<not> comparePassword_json L u pw"
  shows "login_at L E s req pw now later =
    (updateOne s (user_id u)
       (\<lambda>d. d\<lparr>loginAttempts_lockUntil := None, loginAttempts_count := 1,
               loginAttempts_resetAt := Some later\<rparr>),
     wrong_password_401)"
  using assms
  by (simp add: login_at_def login_decide_at_def apply_write_def isLocked_def
      incLoginAttempts_def wrong_password_401_def)

lemma expired_lock_correct_password_at:
  assumes "validationErrors req = []"
    and "findByEmailOrPhone s (body_identifier req) = Some u"
    and "loginAttempts_lockUntil u = Some until" and "until \<le> now"
    and "status u \<noteq> suspended"
    and "comparePassword_json L u pw"
  shows "statusCode (snd (login_at L E s req pw now later)) = 200"
    and "fst (login_at L E s req pw now later) =
      updateOne s (user_id u)
        (\<lambda>d. d\<lparr>loginAttempts_count := 0, loginAttempts_lockUntil := None,
                lastLogin_timestamp := Some later, lastLogin_ipAddress := req_ip req,
                lastLogin_userAgent := req_userAgent req,
                lastLogin_location := Some (''Unknown'', ''India'')\<rparr>)"
  using assms
  by (simp_all add: login_at_def login_decide_at_def apply_write_def isLocked_def json_def
      resetLoginAttempts_def)

text \<open>
  C4 on the code, where both reads return \<open>lockUntil\<close>. Alice's lock ends at 1000 with
  five failures recorded. At 1000 a login arrives whose password is the JSON number
  12345678: it is not empty, \<open>bcrypt.compare\<close> refuses it without hashing, and
  \<open>comparePassword\<close> answers false within the same millisecond. The virtual \<open>isLocked\<close>
  compares with \<open>>\<close>, so the account is not locked and the password is checked; the
  expired-lock branch of \<open>incLoginAttempts\<close> compares with \<open><\<close>, so it is not taken: the
  counter goes from 5 to 6 and the account is locked for two more hours, where the claim
  has the counter restart at 1 with no lock.
\<close>

theorem relock_at_expiry_instant:
  "\<not> isLocked alice_at_expiry 1000
   \<and> \<not> comparePassword_json toy_lib alice_at_expiry (JNumber 12345678)
   \<and> login_at toy_lib default_env [alice_at_expiry] alice_number_login (JNumber 12345678)
        1000 1000
      = ([alice\<lparr>loginAttempts_count := 6, loginAttempts_lockUntil := Some 7201000\<rparr>],
         wrong_password_401)"
  by code_simp

text \<open>On \<open>login\<close>, where one instant stands for all reads: a wrong password after
  \<open>lockUntil\<close> restarts the counter at 1 and removes the lock, and a correct password at or
  after \<open>lockUntil\<close> is accepted and clears counter and lock.\<close>

lemma expired_lock_wrong_password:
  assumes "validationErrors req = []"
    and "findByEmailOrPhone s (body_identifier req) = Some u"
    and "loginAttempts_lockUntil u = Some until" and "until < now"
    and "status u \<noteq> suspended"
    and "\<not> comparePassword L u (body_password req)"
  shows "login L E s req now =
    (updateOne s (user_id u)
       (\<lambda>d. d\<lparr>loginAttempts_lockUntil := None, loginAttempts_count := 1,
               loginAttempts_resetAt := Some now\<rparr>),
     wrong_password_401)"
proof -
  from assms(3,4) have "\<not> isLocked u now"
    by (simp add: isLocked_def)
  from login_wrong_password [OF assms(1,2) this assms(5,6)] assms(3,4) show ?thesis
    by (simp add: incLoginAttempts_def wrong_password_401_def)
qed

lemma expired_lock_correct_password:
  assumes "validationErrors req = []"
    and "findByEmailOrPhone s (body_identifier req) = Some u"
    and "loginAttempts_lockUntil u = Some until" and "until \<le> now"
    and "status u \<noteq> suspended"
    and "comparePassword L u (body_password req)"
  shows "statusCode (snd (login L E s req now)) = 200"
    and "fst (login L E s req now) =
      updateOne s (user_id u)
        (\<lambda>d. d\<lparr>loginAttempts_count := 0, loginAttempts_lockUntil := None,
                lastLogin_timestamp := Some now, lastLogin_ipAddress := req_ip req,
                lastLogin_userAgent := req_userAgent req,
                lastLogin_location := Some (''Unknown'', ''India'')\<rparr>)"
  using assms
  by (simp_all add: login_def login_decide_def apply_write_def isLocked_def json_def
      resetLoginAttempts_def)

text \<open>
  C6 on the code. A login naming no account and a login naming Alice with a wrong password
  are both answered 401 with the same \<open>error\<close> string, but the \<open>tip\<close> of the body differs,
  so the two bodies are not identical and tell whether the identifier exists.
\<close>

theorem login_401_bodies_differ:
  "statusCode (snd (login toy_lib default_env [alice]
       (login_request ''nobody@example.com'' ''wrong'') 1000)) = 401
   \<and> statusCode (snd (login toy_lib default_env [alice]
       (login_request ''alice@example.com'' ''wrong'') 1000)) = 401
   \<and> error (snd (login toy_lib default_env [alice]
       (login_request ''nobody@example.com'' ''wrong'') 1000))
     = error (snd (login toy_lib default_env [alice]
       (login_request ''alice@example.com'' ''wrong'') 1000))
   \<and> tip (snd (login toy_lib default_env [alice]
       (login_request ''nobody@example.com'' ''wrong'') 1000))
     = Some ''Make sure you entered the correct credentials, or create a new account''
   \<and> tip (snd (login toy_lib default_env [alice]
       (login_request ''alice@example.com'' ''wrong'') 1000))
     = Some ''Double-check your password or use the forgot password option''
   \<and> snd (login toy_lib default_env [alice]
       (login_request ''nobody@example.com'' ''wrong'') 1000)
     \<noteq> snd (login toy_lib default_env [alice]
       (login_request ''alice@example.com'' ''wrong'') 1000)"
  by code_simp

section \<open>Refresh tokens\<close>

lemma findById_append_new:
  assumes "newId \<notin> user_id ` set s" and "user_id doc = newId"
  shows "findById (s @ [doc]) newId = Some doc"
proof -
  from assms(1) have "find (\<lambda>u. user_id u = newId) s = None"
    by (auto simp: find_None_iff)
  with assms(2) show ?thesis
    by (simp add: findById_def findOne_def find_append_fresh)
qed

text \<open>Without a parsed cookie object the first line of the handler throws: under
  server.js every refresh request is answered by the \<open>catch\<close>.\<close>

lemma refresh_without_cookies:
  "req_cookies req = None \<Longrightarrow> refresh L E s req now = (s, failure 401 ''Invalid refresh token'')"
  by (simp add: refresh_def presented_refreshToken_def)

lemma refresh_under_server_js:
  "step L E s (Refresh req) now = (s, failure 401 ''Invalid refresh token'')"
  by (simp add: refresh_without_cookies server_js_def)

lemma refresh_inactive:
  assumes "presented_refreshToken req = Inl TypeError \<or>
      presented_refreshToken req = Inr (Some tok)"
    and "jwt_verify L tok (JWT_REFRESH_SECRET E) now = Some decoded"
    and "map_of decoded ''id'' = Some (JId i)"
    and "findById s i = Some u" and "status u \<noteq> active"
  shows "refresh L E s req now = (s, failure 401 ''Invalid refresh token'')"
  using assms by (auto simp: refresh_def)

lemma refresh_registration_token:
  assumes reg: "register L E s0 rreq newId token salt t0 = (s1, res)"
    and created: "statusCode res = 201"
    and fresh: "newId \<notin> user_id ` set s0"
    and tok: "refreshToken res = Some rtok"
    and pres: "presented_refreshToken req = Inl TypeError \<or>
      presented_refreshToken req = Inr (Some rtok)"
    and ver: "jwt_verify L rtok (JWT_REFRESH_SECRET E) now = Some decoded"
    and dec: "map_of decoded ''id'' = map_of (jwt_payload rtok) ''id''"
  shows "refresh L E s1 req now = (s1, failure 401 ''Invalid refresh token'')"
proof (cases rule: register_cases [of L E s0 rreq newId token salt t0])
  case (refused r)
  with reg created show ?thesis
    by auto
next
  case (created s' doc this)
  from created(5) reg tok have s1: "s1 = s'"
    and rtok: "rtok = generateRefreshToken E doc t0"
    by (simp_all add: json_def)
  from save_new_Inr [OF created(1)] created(2,3) s1
  have doc: "s1 = s0 @ [doc]" "user_id doc = newId" "status doc = pending_verification"
    by simp_all
  from rtok dec doc(2) have "map_of decoded ''id'' = Some (JId newId)"
    by (simp add: generateRefreshToken_def)
  moreover from fresh doc have "findById s1 newId = Some doc"
    by (simp add: findById_append_new)
  moreover from doc(3) have "status doc \<noteq> active"
    by simp
  ultimately show ?thesis
    using refresh_inactive [OF pres ver] by blast
qed

text \<open>
  C10. As server.js assembles the application, every refresh request is answered 401 with
  the body \<open>Invalid refresh token\<close> and nothing is written: \<open>req.cookies\<close> is undefined,
  and the \<open>catch\<close> answers the TypeError. The handler itself gives that answer to the token
  of an account that is not active on either path: for a request that has no parsed
  cookies, or that presents a token which \<open>jwt.verify\<close> accepts and decodes to the id of an
  account whose status is not \<open>active\<close>, the answer is that 401. In particular: after a
  registration answered 201 under a fresh id, the refresh token of that response, on a
  request of either kind, while \<open>jwt.verify\<close> accepts it and decodes the id it was signed
  with, gets the same 401, since the new account is \<open>pending_verification\<close>.
\<close>

theorem refresh_refuses_inactive_account:
  "step L E s (Refresh req) now = (s, failure 401 ''Invalid refresh token'')
   \<and>
   ((presented_refreshToken req = Inl TypeError \<or>
     presented_refreshToken req = Inr (Some tok)) \<and>
    jwt_verify L tok (JWT_REFRESH_SECRET E) now = Some decoded \<and>
    map_of decoded ''id'' = Some (JId i) \<and>
    findById s i = Some u \<and> status u \<noteq> active
    \<longrightarrow> refresh L E s req now = (s, failure 401 ''Invalid refresh token''))
   \<and>
   (register L E s0 rreq newId token salt t0 = (s1, res) \<and> statusCode res = 201 \<and>
    newId \<notin> user_id ` set s0 \<and>
    refreshToken res = Some rtok \<and>
    (presented_refreshToken req' = Inl TypeError \<or>
     presented_refreshToken req' = Inr (Some rtok)) \<and>
    jwt_verify L rtok (JWT_REFRESH_SECRET E) now' = Some decoded' \<and>
    map_of decoded' ''id'' = map_of (jwt_payload rtok) ''id''
    \<longrightarrow> refresh L E s1 req' now' = (s1, failure 401 ''Invalid refresh token'')
         \<and> step L E s1 (Refresh req') now' = (s1, failure 401 ''Invalid refresh token''))"
  using refresh_inactive [of req tok L E now decoded i s u]
    refresh_registration_token [of L E s0 rreq newId token salt t0 s1 res rtok req' now' decoded']
    refresh_under_server_js [of L E s req now] refresh_under_server_js [of L E s1 req' now']
  by blast

theorem refresh_refuses_inactive_account_witness:
  "step toy_lib default_env [alice\<lparr>status := suspended\<rparr>]
      (Refresh (refresh_request (generateRefreshToken default_env alice 0))) 1000
     = ([alice\<lparr>status := suspended\<rparr>], failure 401 ''Invalid refresh token'')
   \<and> refresh toy_lib default_env [alice\<lparr>status := suspended\<rparr>]
      (parsed_cookie_request (generateRefreshToken default_env alice 0)) 1000
     = ([alice\<lparr>status := suspended\<rparr>], failure 401 ''Invalid refresh token'')
   \<and> refresh toy_lib default_env [erin]
      (refresh_request (generateRefreshToken default_env erin 0)) 1000
     = ([erin], failure 401 ''Invalid refresh token'')"
proof -
  let ?a = "alice\<lparr>status := suspended\<rparr>"
  let ?ta = "generateRefreshToken default_env alice 0"
  let ?te = "generateRefreshToken default_env erin 0"
  let ?res = "snd (register toy_lib default_env [] erin_registration 7 ''tok'' ''salt'' 0)"
  have a: "presented_refreshToken (parsed_cookie_request ?ta) = Inr (Some ?ta)"
    "jwt_verify toy_lib ?ta (JWT_REFRESH_SECRET default_env) 1000 = Some (jwt_payload ?ta)"
    "map_of (jwt_payload ?ta) ''id'' = Some (JId 1)"
    "findById [?a] 1 = Some ?a" "status ?a \<noteq> active"
    by code_simp+
  have e: "register toy_lib default_env [] erin_registration 7 ''tok'' ''salt'' 0 = ([erin], ?res)"
    "statusCode ?res = 201" "(7 :: nat) \<notin> user_id ` set []"
    "refreshToken ?res = Some ?te"
    by (simp_all add: erin_registered json_def)
  have e': "presented_refreshToken (refresh_request ?te) = Inl TypeError"
    "jwt_verify toy_lib ?te (JWT_REFRESH_SECRET default_env) 1000 = Some (jwt_payload ?te)"
    by code_simp+
  from refresh_refuses_inactive_account [of toy_lib default_env "[?a]"
      "parsed_cookie_request ?ta" 1000 ?ta "jwt_payload ?ta" 1 ?a
      "[]" erin_registration 7 "''tok''" "''salt''" 0 "[erin]" ?res
      ?te "refresh_request ?te" 1000 "jwt_payload ?te"] a e e'
  have parsed: "refresh toy_lib default_env [?a] (parsed_cookie_request ?ta) 1000
     = ([?a], failure 401 ''Invalid refresh token'')"
    and reg: "refresh toy_lib default_env [erin] (refresh_request ?te) 1000
     = ([erin], failure 401 ''Invalid refresh token'')"
    by simp_all
  from refresh_refuses_inactive_account [of toy_lib default_env "[?a]" "refresh_request ?ta" 1000]
  have "step toy_lib default_env [?a] (Refresh (refresh_request ?ta)) 1000
     = ([?a], failure 401 ''Invalid refresh token'')"
    by blast
  with parsed reg show ?thesis
    by simp
qed

lemma login_tokens:
  "refreshToken (snd (login L E s req now)) = None"
  "cookie_refreshToken (snd (login L E s req now)) = Some (tok, opts) \<Longrightarrow>
     \<exists>u. findByEmailOrPhone s (body_identifier req) = Some u \<and>
         tok = generateRefreshToken E u now \<and>
         opts = login_cookieOptions E (body_rememberMe req)"
  by (auto simp: login_def login_decide_def failure_def failure_tip_def json_def
      split: option.splits if_splits)

lemma register_tokens:
  "cookie_refreshToken (snd (register L E s req newId token salt now)) = None"
  "register L E s req newId token salt now = (s', res) \<Longrightarrow> refreshToken res = Some tok \<Longrightarrow>
     \<exists>doc. s' = s @ [doc] \<and> user_id doc = newId \<and> data_user res = Some doc \<and>
           tok = generateRefreshToken E doc now"
proof -
  show "cookie_refreshToken (snd (register L E s req newId token salt now)) = None"
    by (cases rule: register_cases [of L E s req newId token salt now]) (simp_all add: json_def)
  show "\<exists>doc. s' = s @ [doc] \<and> user_id doc = newId \<and> data_user res = Some doc \<and>
           tok = generateRefreshToken E doc now"
    if run: "register L E s req newId token salt now = (s', res)"
      and tok: "refreshToken res = Some tok"
  proof (cases rule: register_cases [of L E s req newId token salt now])
    case (refused r)
    with run tok show ?thesis
      by simp
  next
    case (created s2 doc this)
    from created(5) run tok have "s' = s2" "data_user res = Some doc"
      "tok = generateRefreshToken E doc now"
      by (auto simp: json_def)
    with save_new_Inr(1,2) [OF created(1)] created(2) show ?thesis
      by simp
  qed
qed

lemma other_tokens:
  "refreshToken (snd (me s req)) = None" "cookie_refreshToken (snd (me s req)) = None"
  "refreshToken (snd (refresh L E s req now)) = None"
  "cookie_refreshToken (snd (refresh L E s req now)) = None"
  "refreshToken (snd (logout s req)) = None" "cookie_refreshToken (snd (logout s req)) = None"
  "refreshToken (snd (forgot_password L s req token now)) = None"
  "cookie_refreshToken (snd (forgot_password L s req token now)) = None"
  "refreshToken (snd (reset_password L s req salt now)) = None"
  "cookie_refreshToken (snd (reset_password L s req salt now)) = None"
  by (simp_all add: me_def refresh_def logout_def forgot_password_def reset_password_def
      reset_decide_def forgot_response_def failure_def failure_tip_def json_def Let_def
      split: option.splits if_splits jsval.splits sum.splits)

lemma generateRefreshToken_sel:
  "jwt_payload (generateRefreshToken E u now) = [(''id'', JId (user_id u))]"
  "jwt_secret (generateRefreshToken E u now) = JWT_REFRESH_SECRET E"
  "jwt_expiresIn (generateRefreshToken E u now) = or_default (JWT_REFRESH_EXPIRE E) ''7d''"
  by (simp_all add: generateRefreshToken_def)

text \<open>
  C9, amended. Whatever operation of the core hands out a refresh token, the payload of the
  token is the id of the identity it is issued to and nothing else, and its expiry is
  \<open>JWT_REFRESH_EXPIRE\<close>, \<open>7d\<close> when that is unset. A token in the body comes from a
  registration and carries the id of the account it created; a token in the cookie comes
  from a login and carries the id of the account the identifier named, and the remember-me
  flag of that login decides the \<open>maxAge\<close> of the cookie: 30 days when set, 7 days
  otherwise.
\<close>

theorem refresh_token_expiry_from_configuration:
  assumes "step L E s op now = (s', res)"
  shows "(\<forall>tok. refreshToken res = Some tok \<longrightarrow>
            (\<exists>req newId token salt doc. op = Register req newId token salt \<and>
               s' = s @ [doc] \<and> user_id doc = newId \<and> data_user res = Some doc \<and>
               jwt_payload tok = [(''id'', JId newId)]) \<and>
            jwt_expiresIn tok = or_default (JWT_REFRESH_EXPIRE E) ''7d'')
       \<and> (\<forall>tok opts. cookie_refreshToken res = Some (tok, opts) \<longrightarrow>
            (\<exists>req u. op = Login req \<and>
               findByEmailOrPhone s (body_identifier req) = Some u \<and>
               jwt_payload tok = [(''id'', JId (user_id u))] \<and>
               maxAge opts = (if body_rememberMe req then 30 * 24 * 60 * 60 * 1000
                              else 7 * 24 * 60 * 60 * 1000)) \<and>
            jwt_expiresIn tok = or_default (JWT_REFRESH_EXPIRE E) ''7d'')"
proof (cases op)
  case (Register req newId token salt)
  with assms have run: "register L E s req newId token salt now = (s', res)"
    by simp
  then have "cookie_refreshToken res = None"
    using register_tokens(1) [of L E s req newId token salt now] by simp
  moreover have "(\<exists>doc. s' = s @ [doc] \<and> user_id doc = newId \<and> data_user res = Some doc \<and>
      jwt_payload tok = [(''id'', JId newId)]) \<and>
      jwt_expiresIn tok = or_default (JWT_REFRESH_EXPIRE E) ''7d''"
    if "refreshToken res = Some tok" for tok
    using register_tokens(2) [OF run that] by (auto simp: generateRefreshToken_sel)
  ultimately show ?thesis
    using Register by auto
next
  case (Login req)
  with assms have res: "res = snd (login L E s req now)"
    by simp
  then have "refreshToken res = None"
    by (simp add: login_tokens(1))
  moreover have "(\<exists>u. findByEmailOrPhone s (body_identifier req) = Some u \<and>
      jwt_payload tok = [(''id'', JId (user_id u))] \<and>
      maxAge opts = (if body_rememberMe req then 30 * 24 * 60 * 60 * 1000
                     else 7 * 24 * 60 * 60 * 1000)) \<and>
      jwt_expiresIn tok = or_default (JWT_REFRESH_EXPIRE E) ''7d''"
    if "cookie_refreshToken res = Some (tok, opts)" for tok opts
    using login_tokens(2) [of L E s req now tok opts] that res
    by (auto simp: generateRefreshToken_sel login_cookieOptions_def)
  ultimately show ?thesis
    using Login by auto
next
  case (Me req)
  with assms have "res = snd (me s req)" by simp
  then show ?thesis by (simp add: other_tokens)
next
  case (Refresh req)
  with assms have "res = snd (refresh L E s (server_js req) now)" by simp
  then show ?thesis by (simp add: other_tokens)
next
  case (Logout req)
  with assms have "res = snd (logout s req)" by simp
  then show ?thesis by (simp add: other_tokens)
next
  case (ForgotPassword req token)
  with assms have "res = snd (forgot_password L s req token now)" by simp
  then show ?thesis by (simp add: other_tokens)
next
  case (ResetPassword req salt)
  with assms have "res = snd (reset_password L s req salt now)" by simp
  then show ?thesis by (simp add: other_tokens)
qed

text \<open>
  C9, as stated, fails. Alice logs in with the correct password, once with \<open>rememberMe\<close>
  set and once without: the refresh token is signed with \<open>expiresIn = 7d\<close> both times; the
  flag shows only in the \<open>maxAge\<close> of the cookie (30 days).
\<close>

theorem refresh_expiry_ignores_rememberMe_counterexample:
  "map_option (\<lambda>c. jwt_expiresIn (fst c))
     (cookie_refreshToken (snd (login toy_lib default_env [alice] alice_remembered 1000)))
     = Some ''7d''
   \<and> map_option (\<lambda>c. jwt_expiresIn (fst c))
     (cookie_refreshToken (snd (login toy_lib default_env [alice]
        (login_request ''alice@example.com'' ''Secret123'') 1000)))
     = Some ''7d''
   \<and> map_option (\<lambda>c. maxAge (snd c))
     (cookie_refreshToken (snd (login toy_lib default_env [alice] alice_remembered 1000)))
     = Some 2592000000"
  by code_simp

theorem refresh_token_expiry_from_configuration_witness:
  "findByEmailOrPhone [alice] (body_identifier alice_remembered) = Some alice
   \<and> user_id alice = 1
   \<and> cookie_refreshToken (snd (step toy_lib default_env [alice] (Login alice_remembered) 1000))
     = Some (Jwt [(''id'', JId 1)] ''s2'' ''7d'' 1000,
             \<lparr>httpOnly = True, secure = False, sameSite = ''strict'', maxAge = 2592000000\<rparr>)"
proof -
  let ?r = "step toy_lib default_env [alice] (Login alice_remembered) 1000"
  have c: "cookie_refreshToken (snd ?r)
     = Some (Jwt [(''id'', JId 1)] ''s2'' ''7d'' 1000,
             \<lparr>httpOnly = True, secure = False, sameSite = ''strict'', maxAge = 2592000000\<rparr>)"
    by code_simp
  have f: "findByEmailOrPhone [alice] (body_identifier alice_remembered) = Some alice"
    "user_id alice = 1"
    by code_simp+
  have "step toy_lib default_env [alice] (Login alice_remembered) 1000 = (fst ?r, snd ?r)"
    by simp
  from refresh_token_expiry_from_configuration [OF this] c f show ?thesis
    by simp
qed

section \<open>Password-reset tokens\<close>

lemma findOne_Some:
  "findOne P s = Some u \<Longrightarrow> u \<in> set s \<and> P u"
  by (auto simp: findOne_def find_Some_iff)

lemma findById_mem:
  "distinct (map user_id s) \<Longrightarrow> u \<in> set s \<Longrightarrow> findById s (user_id u) = Some u"
proof (induction s)
  case Nil
  then show ?case by simp
next
  case (Cons d ds)
  then show ?case
    by (auto simp: findById_def findOne_def)
qed

lemma find_id_updateOne:
  assumes "\<And>d. user_id (f d) = user_id d"
  shows "find (\<lambda>u. user_id u = i) (updateOne s j f) =
    (if i = j then map_option f (find (\<lambda>u. user_id u = i) s)
     else find (\<lambda>u. user_id u = i) s)"
  using assms by (induction s) auto

lemma findById_updateOne:
  assumes "\<And>d. user_id (f d) = user_id d"
  shows "findById (updateOne s j f) i = (if i = j then map_option f (findById s i) else findById s i)"
  unfolding findById_def findOne_def using assms by (rule find_id_updateOne)

lemma set_updateOne:
  assumes "distinct (map user_id s)" and "u \<in> set s"
  shows "set (updateOne s (user_id u) f) = insert (f u) (set s - {u})"
  using assms
proof (induction s)
  case Nil
  then show ?case by simp
next
  case (Cons d ds)
  show ?case
  proof (cases "d = u")
    case True
    with Cons.prems(1) have "u \<notin> set ds"
      by auto
    with True show ?thesis
      by auto
  next
    case False
    with Cons.prems have u: "u \<in> set ds" and "user_id d \<noteq> user_id u"
      by auto
    moreover from Cons.prems(1) have "distinct (map user_id ds)"
      by simp
    ultimately show ?thesis
      using Cons.IH False by auto
  qed
qed

lemma reset_update_sel:
  "user_id (reset_update L u pw salt d) = user_id d"
  "email (reset_update L u pw salt d) = email d"
  "password (reset_update L u pw salt d) = bcrypt_hash L pw salt"
  "passwordResetToken (reset_update L u pw salt d) = None"
  "passwordResetExpires (reset_update L u pw salt d) = None"
  "loginAttempts_count (reset_update L u pw salt u) = 0"
  "loginAttempts_lockUntil (reset_update L u pw salt u) = None"
  by (simp_all add: reset_update_def Let_def)

lemma reset_password_cases:
  obtains (invalid_input) res where "validationErrors req \<noteq> []"
      "reset_password L s req salt now = (s, res)" "statusCode res = 400"
  | (no_token) "validationErrors req = []" "reset_find L s req now = None"
      "reset_password L s req salt now = (s, invalid_token_400)"
  | (bad_password) u where "validationErrors req = []" "reset_find L s req now = Some u"
      "\<not> validate_password (body_password req)"
      "reset_password L s req salt now = (s, failure 500 ''Failed to reset password'')"
  | (consumed) u res where "validationErrors req = []" "reset_find L s req now = Some u"
      "validate_password (body_password req)"
      "reset_password L s req salt now =
        (updateOne s (user_id u) (reset_update L u (body_password req) salt), res)"
      "statusCode res = 200"
proof (cases "validationErrors req \<noteq> []")
  case True
  then show ?thesis
    by (intro invalid_input [of "snd (reset_password L s req salt now)"])
      (simp_all add: reset_password_def failure_def json_def)
next
  case noerr: False
  show ?thesis
  proof (cases "reset_find L s req now")
    case None
    with noerr show ?thesis
      by (intro no_token)
        (simp_all add: reset_password_def reset_decide_def apply_write_def invalid_token_400_def)
  next
    case (Some u)
    show ?thesis
    proof (cases "validate_password (body_password req)")
      case False
      with noerr Some show ?thesis
        by (intro bad_password [of u])
          (simp_all add: reset_password_def reset_decide_def apply_write_def)
    next
      case True
      with noerr Some show ?thesis
        by (intro consumed [of u "snd (reset_password L s req salt now)"])
          (simp_all add: reset_password_def reset_decide_def apply_write_def json_def)
    qed
  qed
qed

lemma reset_password_200:
  assumes "reset_password L s req salt now = (s1, res1)" and "statusCode res1 = 200"
  shows "\<exists>u. reset_find L s req now = Some u \<and> validationErrors req = [] \<and>
    validate_password (body_password req) \<and>
    s1 = updateOne s (user_id u) (reset_update L u (body_password req) salt)"
proof (cases rule: reset_password_cases [of req L s salt now])
  case (invalid_input res)
  with assms show ?thesis
    by simp
next
  case no_token
  with assms have "statusCode invalid_token_400 = 200"
    by simp
  then show ?thesis
    by (simp add: invalid_token_400_def failure_tip_def json_def)
next
  case (bad_password u)
  with assms have "statusCode (failure 500 ''Failed to reset password'') = 200"
    by simp
  then show ?thesis
    by (simp add: failure_def json_def)
next
  case (consumed u res)
  with assms show ?thesis
    by simp
qed

lemma reset_find_Some:
  assumes "reset_find L s req now = Some u"
  shows "u \<in> set s" and "passwordResetToken u = Some (sha256_hex L (params_token req))"
    and "\<exists>t. passwordResetExpires u = Some t \<and> now < t"
  using findOne_Some [of _ s u] assms
  by (auto simp: reset_find_def Let_def split: option.splits)

lemma reset_find_consumed:
  assumes "distinct (map user_id s)"
    and "reset_hash_unique s (sha256_hex L (params_token req))"
    and "reset_find L s req now = Some u"
    and "params_token req2 = params_token req"
  shows "reset_find L (updateOne s (user_id u) (reset_update L u pw salt)) req2 now2 = None"
proof -
  let ?h = "sha256_hex L (params_token req)"
  let ?s1 = "updateOne s (user_id u) (reset_update L u pw salt)"
  from reset_find_Some [OF assms(3)] have u: "u \<in> set s" "passwordResetToken u = Some ?h"
    by simp_all
  have "passwordResetToken v \<noteq> Some ?h" if "v \<in> set ?s1" for v
  proof -
    from that set_updateOne [OF assms(1) u(1)]
    consider "v = reset_update L u pw salt u" | "v \<in> set s" "v \<noteq> u"
      by auto
    then show ?thesis
    proof cases
      case 1
      then show ?thesis
        by (simp add: reset_update_sel)
    next
      case 2
      with assms(2) u show ?thesis
        unfolding reset_hash_unique_def by blast
    qed
  qed
  then have "\<not> (\<exists>v. v \<in> set ?s1 \<and> passwordResetToken v = Some ?h \<and>
      (case passwordResetExpires v of None \<Rightarrow> False | Some t \<Rightarrow> now2 < t))"
    by blast
  then show ?thesis
    by (simp add: reset_find_def findOne_def find_None_iff assms(4) Let_def)
qed

lemma reset_password_second_use:
  assumes "distinct (map user_id s)"
    and "reset_hash_unique s (sha256_hex L (params_token req))"
    and "reset_password L s req salt now = (s1, res1)" and "statusCode res1 = 200"
    and "validationErrors req2 = []" and "params_token req2 = params_token req"
  shows "\<exists>u u1. reset_find L s req now = Some u \<and>
           s1 = updateOne s (user_id u) (reset_update L u (body_password req) salt) \<and>
           findById s1 (user_id u) = Some u1 \<and>
           password u1 = bcrypt_hash L (body_password req) salt \<and>
           passwordResetToken u1 = None \<and> passwordResetExpires u1 = None"
    and "reset_password L s1 req2 salt2 now2 = (s1, invalid_token_400)"
proof -
  from reset_password_200 [OF assms(3,4)] obtain u where found: "reset_find L s req now = Some u"
    and s1: "s1 = updateOne s (user_id u) (reset_update L u (body_password req) salt)"
    by blast
  let ?u1 = "reset_update L u (body_password req) salt u"
  from reset_find_Some(1) [OF found] assms(1) have "findById s (user_id u) = Some u"
    by (simp add: findById_mem)
  then have "findById s1 (user_id u) = Some ?u1"
    by (simp add: s1 findById_updateOne reset_update_sel)
  with found s1 show "\<exists>u u1. reset_find L s req now = Some u \<and>
           s1 = updateOne s (user_id u) (reset_update L u (body_password req) salt) \<and>
           findById s1 (user_id u) = Some u1 \<and>
           password u1 = bcrypt_hash L (body_password req) salt \<and>
           passwordResetToken u1 = None \<and> passwordResetExpires u1 = None"
    by (simp add: reset_update_sel)
  from reset_find_consumed [OF assms(1,2) found assms(6)] s1
  have "reset_find L s1 req2 now2 = None"
    by simp
  with assms(5) show "reset_password L s1 req2 salt2 now2 = (s1, invalid_token_400)"
    by (simp add: reset_password_def reset_decide_def apply_write_def invalid_token_400_def)
qed

lemma forgot_password_stores_latest:
  assumes "distinct (map user_id sA)" and "validationErrors reqF = []"
    and "findOne (\<lambda>v. email v = toLowerCase (body_email reqF)) sA = Some u"
    and "forgot_password L sA reqF tokB t2 = (sB, r)"
    and "reset_find L sB req3 now3 = Some v" and "user_id v = user_id u"
  shows "sha256_hex L (params_token req3) = sha256_hex L tokB" and "now3 < t2 + 600000"
proof -
  let ?f = "\<lambda>d. d\<lparr>passwordResetToken := Some (sha256_hex L tokB),
                   passwordResetExpires := Some (t2 + 10 * 60 * 1000)\<rparr>"
  from assms(2,3,4) have sB: "sB = updateOne sA (user_id u) ?f"
    by (simp add: forgot_password_def generatePasswordResetToken_def Let_def)
  from findOne_Some [OF assms(3)] have u: "u \<in> set sA"
    by simp
  have dB: "distinct (map user_id sB)"
    using assms(1) by (simp add: sB map_user_id_updateOne)
  from reset_find_Some [OF assms(5)] have v: "v \<in> set sB"
    "passwordResetToken v = Some (sha256_hex L (params_token req3))"
    "\<exists>t. passwordResetExpires v = Some t \<and> now3 < t"
    by simp_all
  from findById_mem [OF dB v(1)] assms(6) have "findById sB (user_id u) = Some v"
    by simp
  moreover from findById_mem [OF assms(1) u] have "findById sB (user_id u) = Some (?f u)"
    by (simp add: sB findById_updateOne)
  ultimately have "v = ?f u"
    by simp
  with v(2,3) show "sha256_hex L (params_token req3) = sha256_hex L tokB"
    and "now3 < t2 + 600000"
    by simp_all
qed

text \<open>
  C7, for requests handled one after the other, on a collection with unique ids in which
  no two accounts store the presented hash. A reset answered 200 is one update of the
  account found: it replaces the password by the hash of the new one and removes the
  stored token hash and its expiry; any later reset request with the same raw token (and
  valid input) is answered 400 with the invalid-or-expired-token error and writes nothing.
  And once forgot-password has issued a token for an account, a reset request that finds
  this account presents a token with the hash of the one issued last, before its expiry: the
  single stored hash was overwritten.
\<close>

theorem reset_token_single_use:
  "(distinct (map user_id s) \<and> reset_hash_unique s (sha256_hex L (params_token req)) \<and>
    reset_password L s req salt now = (s1, res1) \<and> statusCode res1 = 200 \<and>
    validationErrors req2 = [] \<and> params_token req2 = params_token req
    \<longrightarrow> (\<exists>u u1. reset_find L s req now = Some u \<and>
           s1 = updateOne s (user_id u) (reset_update L u (body_password req) salt) \<and>
           findById s1 (user_id u) = Some u1 \<and>
           password u1 = bcrypt_hash L (body_password req) salt \<and>
           passwordResetToken u1 = None \<and> passwordResetExpires u1 = None)
        \<and> reset_password L s1 req2 salt2 now2 = (s1, invalid_token_400))
   \<and>
   (distinct (map user_id sA) \<and> validationErrors reqF = [] \<and>
    findOne (\<lambda>v. email v = toLowerCase (body_email reqF)) sA = Some u \<and>
    forgot_password L sA reqF tokB t2 = (sB, r) \<and>
    reset_find L sB req3 now3 = Some v \<and> user_id v = user_id u
    \<longrightarrow> sha256_hex L (params_token req3) = sha256_hex L tokB \<and> now3 < t2 + 600000)"
proof (intro conjI impI)
  assume "distinct (map user_id s) \<and> reset_hash_unique s (sha256_hex L (params_token req)) \<and>
    reset_password L s req salt now = (s1, res1) \<and> statusCode res1 = 200 \<and>
    validationErrors req2 = [] \<and> params_token req2 = params_token req"
  then have h: "distinct (map user_id s)" "reset_hash_unique s (sha256_hex L (params_token req))"
    "reset_password L s req salt now = (s1, res1)" "statusCode res1 = 200"
    "validationErrors req2 = []" "params_token req2 = params_token req"
    by simp_all
  from reset_password_second_use(1) [OF h]
  show "\<exists>u u1. reset_find L s req now = Some u \<and>
           s1 = updateOne s (user_id u) (reset_update L u (body_password req) salt) \<and>
           findById s1 (user_id u) = Some u1 \<and>
           password u1 = bcrypt_hash L (body_password req) salt \<and>
           passwordResetToken u1 = None \<and> passwordResetExpires u1 = None" .
  from reset_password_second_use(2) [OF h]
  show "reset_password L s1 req2 salt2 now2 = (s1, invalid_token_400)" .
next
  assume "distinct (map user_id sA) \<and> validationErrors reqF = [] \<and>
    findOne (\<lambda>v. email v = toLowerCase (body_email reqF)) sA = Some u \<and>
    forgot_password L sA reqF tokB t2 = (sB, r) \<and>
    reset_find L sB req3 now3 = Some v \<and> user_id v = user_id u"
  then have h: "distinct (map user_id sA)" "validationErrors reqF = []"
    "findOne (\<lambda>v. email v = toLowerCase (body_email reqF)) sA = Some u"
    "forgot_password L sA reqF tokB t2 = (sB, r)"
    "reset_find L sB req3 now3 = Some v" "user_id v = user_id u"
    by simp_all
  from forgot_password_stores_latest [OF h]
  show "sha256_hex L (params_token req3) = sha256_hex L tokB" and "now3 < t2 + 600000" .
qed

lemma alice_forgot:
  "forgot_password toy_lib [alice] (forgot_request ''alice@example.com'') ''t1'' 1000
     = ([alice_t1], forgot_response)"
  "forgot_password toy_lib [alice_t1] (forgot_request ''alice@example.com'') ''t2'' 5000
     = ([alice_t2], forgot_response)"
  by code_simp+

lemma alice_reset:
  "reset_password toy_lib [alice_t1] (reset_request ''t1'' ''NewPass123'') ''x'' 2000
     = ([alice_new], (json 200 True)
          \<lparr>message := Some ''Password reset successfully! You can now log in with your new password.''\<rparr>)"
  by code_simp

theorem reset_token_single_use_witness:
  "reset_password toy_lib [alice_new] (reset_request ''t1'' ''Other1234'') ''y'' 3000
     = ([alice_new], invalid_token_400)
   \<and> reset_password toy_lib [alice_t2] (reset_request ''t1'' ''NewPass123'') ''x'' 6000
     = ([alice_t2], invalid_token_400)
   \<and> sha256_hex toy_lib (params_token (reset_request ''t2'' ''NewPass123'')) = sha256_hex toy_lib ''t2''
   \<and> (6000 :: int) < 5000 + 600000"
proof -
  let ?req = "reset_request ''t1'' ''NewPass123''"
  let ?req2 = "reset_request ''t1'' ''Other1234''"
  let ?req3 = "reset_request ''t2'' ''NewPass123''"
  let ?reqF = "forgot_request ''alice@example.com''"
  let ?res1 = "(json 200 True)
          \<lparr>message := Some ''Password reset successfully! You can now log in with your new password.''\<rparr>"
  have a: "distinct (map user_id [alice_t1])"
    "reset_hash_unique [alice_t1] (sha256_hex toy_lib (params_token ?req))"
    "statusCode ?res1 = 200" "validationErrors ?req2 = []" "params_token ?req2 = params_token ?req"
    by code_simp+
  have b: "validationErrors ?reqF = []"
    "findOne (\<lambda>v. email v = toLowerCase (body_email ?reqF)) [alice_t1] = Some alice_t1"
    "reset_find toy_lib [alice_t2] ?req3 6000 = Some alice_t2" "user_id alice_t2 = user_id alice_t1"
    by code_simp+
  have stale: "reset_password toy_lib [alice_t2] ?req ''x'' 6000 = ([alice_t2], invalid_token_400)"
    by code_simp
  from reset_token_single_use [where s = "[alice_t1]" and L = toy_lib and req = ?req
      and salt = "''x''" and now = 2000 and ?s1.0 = "[alice_new]" and ?res1.0 = ?res1
      and ?req2.0 = ?req2 and ?salt2.0 = "''y''" and ?now2.0 = 3000
      and sA = "[alice_t1]" and reqF = ?reqF and u = alice_t1 and tokB = "''t2''"
      and ?t2.0 = 5000 and sB = "[alice_t2]" and r = forgot_response
      and ?req3.0 = ?req3 and ?now3.0 = 6000 and v = alice_t2]
    a b alice_forgot(2) alice_reset stale
  show ?thesis
    by simp
qed

section \<open>What changes the failure counter\<close>

lemma findByEmailOrPhone_mem:
  "findByEmailOrPhone s ident = Some u \<Longrightarrow> u \<in> set s"
  by (auto simp: findByEmailOrPhone_find find_Some_iff)

lemma resetLoginAttempts_sel:
  "user_id (resetLoginAttempts info now d) = user_id d"
  "loginAttempts_count (resetLoginAttempts info now d) = 0"
  "loginAttempts_lockUntil (resetLoginAttempts info now d) = None"
  by (simp_all add: resetLoginAttempts_def Let_def split: option.splits)

lemma login_cases:
  obtains (invalid_input) res where "validationErrors req \<noteq> []"
      "login L E s req now = (s, res)" "statusCode res = 400"
  | (unknown) res where "validationErrors req = []"
      "findByEmailOrPhone s (body_identifier req) = None"
      "login L E s req now = (s, res)" "statusCode res = 401"
  | (locked) u where "validationErrors req = []"
      "findByEmailOrPhone s (body_identifier req) = Some u" "isLocked u now"
      "login L E s req now = (s, locked_423)"
  | (suspended) u res where "validationErrors req = []"
      "findByEmailOrPhone s (body_identifier req) = Some u" "\<not> isLocked u now"
      "status u = suspended"
      "login L E s req now = (s, res)" "statusCode res = 403"
  | (wrong) u where "validationErrors req = []"
      "findByEmailOrPhone s (body_identifier req) = Some u" "\<not> isLocked u now"
      "status u \<noteq> suspended" "\<not> comparePassword L u (body_password req)"
      "login L E s req now =
         (updateOne s (user_id u) (incLoginAttempts u now), wrong_password_401)"
  | (accepted) u res where "validationErrors req = []"
      "findByEmailOrPhone s (body_identifier req) = Some u" "\<not> isLocked u now"
      "status u \<noteq> suspended" "comparePassword L u (body_password req)"
      "login L E s req now =
         (updateOne s (user_id u)
            (resetLoginAttempts \<lparr>ipAddress = req_ip req, userAgent = req_userAgent req,
                                 location = Some (''Unknown'', ''India'')\<rparr> now), res)"
      "statusCode res = 200"
proof (cases "validationErrors req \<noteq> []")
  case True
  then show ?thesis
    by (intro invalid_input [of "snd (login L E s req now)"])
      (simp_all add: login_def failure_def json_def)
next
  case noerr: False
  show ?thesis
  proof (cases "findByEmailOrPhone s (body_identifier req)")
    case None
    with noerr show ?thesis
      by (intro unknown [of "snd (login L E s req now)"])
        (simp_all add: login_def login_decide_def apply_write_def failure_tip_def json_def)
  next
    case (Some u)
    show ?thesis
    proof (cases "isLocked u now")
      case True
      with noerr Some show ?thesis
        by (intro locked [of u]) (simp_all add: login_locked locked_423_def)
    next
      case unl: False
      show ?thesis
      proof (cases "status u = suspended")
        case True
        with noerr Some unl show ?thesis
          by (intro suspended [of u "snd (login L E s req now)"])
            (simp_all add: login_def login_decide_def apply_write_def failure_tip_def json_def)
      next
        case ok: False
        show ?thesis
        proof (cases "comparePassword L u (body_password req)")
          case False
          with noerr Some unl ok show ?thesis
            by (intro wrong [of u]) (simp_all add: login_wrong_password wrong_password_401_def)
        next
          case True
          with noerr Some unl ok show ?thesis
            by (intro accepted [of u "snd (login L E s req now)"])
              (simp_all add: login_def login_decide_def apply_write_def json_def)
        qed
      qed
    qed
  qed
qed

lemma register_findById:
  assumes "findById s i = Some u"
  shows "findById (fst (register L E s req newId token salt now)) i = Some u"
proof (cases rule: register_cases [of L E s req newId token salt now])
  case (refused res)
  with assms show ?thesis
    by simp
next
  case (created s' doc this)
  from save_new_Inr(1) [OF created(1)] created(5) assms show ?thesis
    by (simp add: findById_def findOne_def find_append_existing)
qed

lemma forgot_password_count:
  assumes "findById s i = Some u"
  shows "\<exists>u'. findById (fst (forgot_password L s req token now)) i = Some u' \<and>
           loginAttempts_count u' = loginAttempts_count u"
  using assms
  by (auto simp: forgot_password_def Let_def findById_updateOne split: option.splits)

lemma unchanged_store:
  "fst (me s req) = s" "fst (refresh L E s req now) = s" "fst (logout s req) = s"
  by (simp_all add: me_def refresh_def logout_def split: option.splits jsval.splits sum.splits)

text \<open>
  C5, as stated, fails. Alice has three failures recorded and holds a reset token; the
  reset of her password, no login, sets \<open>loginAttempts.count\<close> from 3 to 0.
\<close>

theorem password_reset_clears_failureCount_counterexample:
  "statusCode (snd (reset_password toy_lib [alice_t1\<lparr>loginAttempts_count := 3\<rparr>]
      (reset_request ''t1'' ''NewPass123'') ''x'' 2000)) = 200
   \<and> map loginAttempts_count [alice_t1\<lparr>loginAttempts_count := 3\<rparr>] = [3]
   \<and> map loginAttempts_count (fst (reset_password toy_lib [alice_t1\<lparr>loginAttempts_count := 3\<rparr>]
      (reset_request ''t1'' ''NewPass123'') ''x'' 2000)) = [0]"
  by code_simp

text \<open>The counter of an account across one operation, route by route.\<close>

lemma failureCount_changes_only:
  assumes "distinct (map user_id s)" and "findById s i = Some u"
    and "step L E s op now = (s', res)"
  shows "\<exists>u'. findById s' i = Some u' \<and>
     (loginAttempts_count u' = loginAttempts_count u
      \<or> (\<exists>req. op = Login req \<and> statusCode res = 401 \<and>
            findByEmailOrPhone s (body_identifier req) = Some u \<and>
            \<not> comparePassword L u (body_password req) \<and>
            (loginAttempts_count u' = loginAttempts_count u + 1 \<or>
             (\<exists>until. loginAttempts_lockUntil u = Some until \<and> until < now \<and>
                loginAttempts_count u' = 1)))
      \<or> (\<exists>req. op = Login req \<and> statusCode res = 200 \<and>
            findByEmailOrPhone s (body_identifier req) = Some u \<and>
            comparePassword L u (body_password req) \<and> loginAttempts_count u' = 0)
      \<or> (\<exists>req salt. op = ResetPassword req salt \<and> statusCode res = 200 \<and>
            reset_find L s req now = Some u \<and> loginAttempts_count u' = 0))"
proof -
  have same: "u0 = u" if "u0 \<in> set s" "user_id u0 = i" for u0
    using findById_mem [OF assms(1) that(1)] that(2) assms(2) by simp
  show ?thesis
  proof (cases op)
    case (Register req newId token salt)
    with assms(3) have "s' = fst (register L E s req newId token salt now)"
      by auto
    with register_findById [OF assms(2)] show ?thesis
      by blast
  next
    case (Login req)
    with assms(3) have run: "login L E s req now = (s', res)"
      by simp
    show ?thesis
    proof (cases rule: login_cases [of req L E s now])
      case (invalid_input r)
      with run assms(2) show ?thesis by simp
    next
      case (unknown r)
      with run assms(2) show ?thesis by simp
    next
      case (locked u0)
      with run assms(2) show ?thesis by simp
    next
      case (suspended u0 r)
      with run assms(2) show ?thesis by simp
    next
      case (wrong u0)
      let ?f = "incLoginAttempts u0 now"
      from wrong(6) run have s': "s' = updateOne s (user_id u0) ?f"
        and res: "res = wrong_password_401"
        by simp_all
      show ?thesis
      proof (cases "user_id u0 = i")
        case False
        with assms(2) have "findById s' i = Some u"
          by (simp add: s' findById_updateOne incLoginAttempts_frame)
        then show ?thesis by simp
      next
        case True
        with same findByEmailOrPhone_mem [OF wrong(2)] have u0: "u0 = u"
          by simp
        from True assms(2) have found: "findById s' i = Some (?f u)"
          by (simp add: s' findById_updateOne incLoginAttempts_frame)
        have "loginAttempts_count (?f u) = loginAttempts_count u + 1 \<or>
             (\<exists>until. loginAttempts_lockUntil u = Some until \<and> until < now \<and>
                loginAttempts_count (?f u) = 1)"
          by (auto simp: incLoginAttempts_def u0 split: option.splits)
        moreover have "statusCode res = 401"
          by (simp add: res wrong_password_401_def failure_tip_def json_def)
        ultimately show ?thesis
          using found wrong(2,5) Login u0 by blast
      qed
    next
      case (accepted u0 r)
      let ?f = "resetLoginAttempts \<lparr>ipAddress = req_ip req, userAgent = req_userAgent req,
                                 location = Some (''Unknown'', ''India'')\<rparr> now"
      from accepted(6,7) run have s': "s' = updateOne s (user_id u0) ?f"
        and res: "statusCode res = 200"
        by simp_all
      show ?thesis
      proof (cases "user_id u0 = i")
        case False
        with assms(2) have "findById s' i = Some u"
          by (simp add: s' findById_updateOne resetLoginAttempts_sel)
        then show ?thesis by simp
      next
        case True
        with same findByEmailOrPhone_mem [OF accepted(2)] have u0: "u0 = u"
          by simp
        from True assms(2) have found: "findById s' i = Some (?f u)"
          by (simp add: s' findById_updateOne resetLoginAttempts_sel)
        have "loginAttempts_count (?f u) = 0"
          by (simp add: resetLoginAttempts_sel)
        with found res accepted(2,5) Login u0 show ?thesis
          by blast
      qed
    qed
  next
    case (Me req)
    with assms(2,3) show ?thesis
      using unchanged_store(1) [of s req] by auto
  next
    case (Refresh req)
    with assms(2,3) show ?thesis
      using unchanged_store(2) [of L E s "server_js req" now] by auto
  next
    case (Logout req)
    with assms(2,3) show ?thesis
      using unchanged_store(3) [of s req] by auto
  next
    case (ForgotPassword req token)
    with assms(3) have "s' = fst (forgot_password L s req token now)"
      by auto
    with forgot_password_count [OF assms(2), of L req token now] show ?thesis
      by blast
  next
    case (ResetPassword req salt)
    with assms(3) have run: "reset_password L s req salt now = (s', res)"
      by simp
    show ?thesis
    proof (cases rule: reset_password_cases [of req L s salt now])
      case (invalid_input r)
      with run assms(2) show ?thesis by simp
    next
      case no_token
      with run assms(2) show ?thesis by simp
    next
      case (bad_password u0)
      with run assms(2) show ?thesis by simp
    next
      case (consumed u0 r)
      let ?f = "reset_update L u0 (body_password req) salt"
      from consumed(4,5) run have s': "s' = updateOne s (user_id u0) ?f"
        and res: "statusCode res = 200"
        by simp_all
      show ?thesis
      proof (cases "user_id u0 = i")
        case False
        with assms(2) have "findById s' i = Some u"
          by (simp add: s' findById_updateOne reset_update_sel)
        then show ?thesis by simp
      next
        case True
        with same reset_find_Some(1) [OF consumed(2)] have u0: "u0 = u"
          by simp
        from True assms(2) have found: "findById s' i = Some (?f u)"
          by (simp add: s' findById_updateOne reset_update_sel)
        have "loginAttempts_count (?f u) = 0"
          by (simp add: u0 reset_update_sel)
        with found res consumed(2) ResetPassword u0 show ?thesis
          by blast
      qed
    qed
  qed
qed

lemma findById_id:
  "findById s i = Some u \<Longrightarrow> user_id u = i"
  by (auto simp: findById_def findOne_def find_Some_iff)

lemma login_success_resets:
  assumes "findById s i = Some u" and "login L E s req now = (s', res)"
    and "statusCode res = 200" and "findByEmailOrPhone s (body_identifier req) = Some u"
    and "findById s' i = Some u'"
  shows "loginAttempts_count u' = 0 \<and> loginAttempts_lockUntil u' = None"
proof (cases rule: login_cases [of req L E s now])
  case (invalid_input r)
  with assms(2,3) show ?thesis by simp
next
  case (unknown r)
  with assms(2,3) show ?thesis by simp
next
  case (locked u0)
  with assms(2,3) show ?thesis
    by (auto simp: locked_423_def failure_tip_def json_def)
next
  case (suspended u0 r)
  with assms(2,3) show ?thesis by simp
next
  case (wrong u0)
  with assms(2,3) show ?thesis
    by (auto simp: wrong_password_401_def failure_tip_def json_def)
next
  case (accepted u0 r)
  let ?f = "resetLoginAttempts \<lparr>ipAddress = req_ip req, userAgent = req_userAgent req,
                                 location = Some (''Unknown'', ''India'')\<rparr> now"
  from accepted(2) assms(4) have "u0 = u"
    by simp
  with accepted(6) assms(2) findById_id [OF assms(1)]
  have "s' = updateOne s i ?f"
    by simp
  with assms(1,5) have "u' = ?f u"
    by (simp add: findById_updateOne resetLoginAttempts_sel)
  then show ?thesis
    by (simp add: resetLoginAttempts_sel)
qed

lemma reset_success_resets:
  assumes "findById s i = Some u" and "reset_password L s req salt now = (s', res)"
    and "statusCode res = 200" and "reset_find L s req now = Some u"
    and "findById s' i = Some u'"
  shows "loginAttempts_count u' = 0 \<and> loginAttempts_lockUntil u' = None"
proof -
  from reset_password_200 [OF assms(2,3)] assms(4) findById_id [OF assms(1)]
  have "s' = updateOne s i (reset_update L u (body_password req) salt)"
    by auto
  with assms(1,5) have "u' = reset_update L u (body_password req) salt u"
    by (simp add: findById_updateOne reset_update_sel)
  then show ?thesis
    by (simp add: reset_update_sel)
qed

text \<open>
  C5, amended. On a collection with unique ids, whatever operation of the core runs
  (register, login, me, refresh, logout, forgot-password, reset-password), an account that
  exists before it exists after it, and its \<open>loginAttempts.count\<close> is unchanged unless the
  operation is
  \<^item> a login naming this account with a wrong password, answered 401: the count grows by
    one, or restarts at 1 when a stored lock lies before \<open>now\<close>;
  \<^item> a login naming this account with the correct password, answered 200: the count is 0;
  \<^item> a reset-password that found this account by its token, answered 200: the count is 0.

  And after each of the last two the count is 0 and no lock is stored.
\<close>

theorem failureCount_changes:
  assumes "distinct (map user_id s)" and "findById s i = Some u"
    and "step L E s op now = (s', res)"
  shows "\<exists>u'. findById s' i = Some u' \<and>
     (loginAttempts_count u' = loginAttempts_count u
      \<or> (\<exists>req. op = Login req \<and> statusCode res = 401 \<and>
            findByEmailOrPhone s (body_identifier req) = Some u \<and>
            \<not> comparePassword L u (body_password req) \<and>
            (loginAttempts_count u' = loginAttempts_count u + 1 \<or>
             (\<exists>until. loginAttempts_lockUntil u = Some until \<and> until < now \<and>
                loginAttempts_count u' = 1)))
      \<or> (\<exists>req. op = Login req \<and> statusCode res = 200 \<and>
            findByEmailOrPhone s (body_identifier req) = Some u \<and>
            comparePassword L u (body_password req) \<and> loginAttempts_count u' = 0)
      \<or> (\<exists>req salt. op = ResetPassword req salt \<and> statusCode res = 200 \<and>
            reset_find L s req now = Some u \<and> loginAttempts_count u' = 0))
     \<and> (\<forall>req. op = Login req \<and> statusCode res = 200 \<and>
            findByEmailOrPhone s (body_identifier req) = Some u
            \<longrightarrow> loginAttempts_count u' = 0 \<and> loginAttempts_lockUntil u' = None)
     \<and> (\<forall>req salt. op = ResetPassword req salt \<and> statusCode res = 200 \<and>
            reset_find L s req now = Some u
            \<longrightarrow> loginAttempts_count u' = 0 \<and> loginAttempts_lockUntil u' = None)"
proof -
  from failureCount_changes_only [OF assms] obtain u' where
    found: "findById s' i = Some u'"
    and only: "loginAttempts_count u' = loginAttempts_count u
      \<or> (\<exists>req. op = Login req \<and> statusCode res = 401 \<and>
            findByEmailOrPhone s (body_identifier req) = Some u \<and>
            \<not> comparePassword L u (body_password req) \<and>
            (loginAttempts_count u' = loginAttempts_count u + 1 \<or>
             (\<exists>until. loginAttempts_lockUntil u = Some until \<and> until < now \<and>
                loginAttempts_count u' = 1)))
      \<or> (\<exists>req. op = Login req \<and> statusCode res = 200 \<and>
            findByEmailOrPhone s (body_identifier req) = Some u \<and>
            comparePassword L u (body_password req) \<and> loginAttempts_count u' = 0)
      \<or> (\<exists>req salt. op = ResetPassword req salt \<and> statusCode res = 200 \<and>
            reset_find L s req now = Some u \<and> loginAttempts_count u' = 0)"
    by blast
  have "loginAttempts_count u' = 0 \<and> loginAttempts_lockUntil u' = None"
    if "op = Login req" "statusCode res = 200"
      "findByEmailOrPhone s (body_identifier req) = Some u" for req
    using login_success_resets [OF assms(2) _ that(2,3) found] assms(3) that(1) by simp
  moreover have "loginAttempts_count u' = 0 \<and> loginAttempts_lockUntil u' = None"
    if "op = ResetPassword req salt" "statusCode res = 200"
      "reset_find L s req now = Some u" for req salt
    using reset_success_resets [OF assms(2) _ that(2,3) found] assms(3) that(1) by simp
  ultimately show ?thesis
    using found only by blast
qed

theorem failureCount_changes_witness:
  "\<exists>u'. findById (fst (step toy_lib default_env [alice_t1\<lparr>loginAttempts_count := 3\<rparr>]
            (ResetPassword (reset_request ''t1'' ''NewPass123'') ''x'') 2000)) 1 = Some u'
         \<and> loginAttempts_count u' = 0"
proof -
  let ?s = "[alice_t1\<lparr>loginAttempts_count := 3\<rparr>]"
  let ?op = "ResetPassword (reset_request ''t1'' ''NewPass123'') ''x''"
  let ?r = "step toy_lib default_env ?s ?op 2000"
  have h: "distinct (map user_id ?s)" "findById ?s 1 = Some (alice_t1\<lparr>loginAttempts_count := 3\<rparr>)"
    by code_simp+
  have r: "?r = (fst ?r, snd ?r)"
    by simp
  have c: "map loginAttempts_count (fst ?r) = [0]"
    by code_simp
  from failureCount_changes [OF h r] obtain u' where
    "findById (fst ?r) 1 = Some u'"
    by blast
  moreover from this c have "loginAttempts_count u' = 0"
    by (cases "fst ?r") (auto simp: findById_def findOne_def split: if_splits)
  ultimately show ?thesis
    by blast
qed

section \<open>Interleaved requests\<close>

text \<open>
  C8, as stated, fails: each handler awaits a query and then a separate update. With both
  queries answered before either update is applied,
  \<^item> two consumptions of the reset token \<open>t1\<close> are both answered 200, and the password
    of the second stays;
  \<^item> two failed logins on an account whose lock expired both take the rollover branch,
    which sets the count to 1: two failures are counted as one (handled one after the
    other they count 2);
  \<^item> two failed logins on an account with three failures each decide from the count 3 they
    read: the count reaches 5 and no lock is stored.
\<close>

theorem concurrent_requests_counterexample:
  "statusCode (fst (snd (reset_interleaved toy_lib [alice_t1]
       (reset_request ''t1'' ''NewPass123'') ''x'' 2000
       (reset_request ''t1'' ''Mallory99'') ''y'' 2001))) = 200
   \<and> statusCode (snd (snd (reset_interleaved toy_lib [alice_t1]
       (reset_request ''t1'' ''NewPass123'') ''x'' 2000
       (reset_request ''t1'' ''Mallory99'') ''y'' 2001))) = 200
   \<and> map password (fst (reset_interleaved toy_lib [alice_t1]
       (reset_request ''t1'' ''NewPass123'') ''x'' 2000
       (reset_request ''t1'' ''Mallory99'') ''y'' 2001)) = [''hash:Mallory99'']
   \<and> snd (login_interleaved toy_lib default_env [alice_expired] alice_wrong 1000 alice_wrong 1001)
       = (wrong_password_401, wrong_password_401)
   \<and> map loginAttempts_count
       (fst (login_interleaved toy_lib default_env [alice_expired] alice_wrong 1000 alice_wrong 1001))
       = [1]
   \<and> map loginAttempts_count
       (fst (login_sequential toy_lib default_env [alice_expired] alice_wrong 1000 alice_wrong 1001))
       = [2]
   \<and> map loginAttempts_count
       (fst (login_interleaved toy_lib default_env [alice_three] alice_wrong 1000 alice_wrong 1001))
       = [5]
   \<and> map loginAttempts_lockUntil
       (fst (login_interleaved toy_lib default_env [alice_three] alice_wrong 1000 alice_wrong 1001))
       = [None]"
  by code_simp

lemma login_decide_wrong:
  assumes "loginAttempts_lockUntil u = None" and "status u \<noteq> suspended"
    and "\<not> comparePassword L u (body_password req)"
  shows "login_decide L E (Some u) req now =
    (Some (user_id u, incLoginAttempts u now), wrong_password_401)"
  using assms by (simp add: login_decide_def isLocked_def wrong_password_401_def)

lemma incLoginAttempts_unlocked_count:
  "loginAttempts_lockUntil u = None \<Longrightarrow>
   loginAttempts_count (incLoginAttempts u now d) = loginAttempts_count d + 1"
  by (simp add: incLoginAttempts_def)

lemma login_interleaved_both_count:
  assumes "distinct (map user_id s)"
    and "validationErrors reqA = []" and "validationErrors reqB = []"
    and "findByEmailOrPhone s (body_identifier reqA) = Some u"
    and "findByEmailOrPhone s (body_identifier reqB) = Some u"
    and "loginAttempts_lockUntil u = None" and "status u \<noteq> suspended"
    and "\<not> comparePassword L u (body_password reqA)"
    and "\<not> comparePassword L u (body_password reqB)"
  shows "\<exists>s' u'. login_interleaved L E s reqA nowA reqB nowB
            = (s', wrong_password_401, wrong_password_401) \<and>
           findById s' (user_id u) = Some u' \<and>
           loginAttempts_count u' = loginAttempts_count u + 2"
proof -
  let ?fA = "incLoginAttempts u nowA" and ?fB = "incLoginAttempts u nowB"
  let ?s' = "updateOne (updateOne s (user_id u) ?fA) (user_id u) ?fB"
  from assms(2-5) login_decide_wrong [OF assms(6,7,8)] login_decide_wrong [OF assms(6,7,9)]
  have run: "login_interleaved L E s reqA nowA reqB nowB
            = (?s', wrong_password_401, wrong_password_401)"
    by (simp add: login_interleaved_def apply_write_def)
  from findByEmailOrPhone_mem [OF assms(4)] assms(1) have "findById s (user_id u) = Some u"
    by (simp add: findById_mem)
  then have "findById ?s' (user_id u) = Some (?fB (?fA u))"
    by (simp add: findById_updateOne incLoginAttempts_frame)
  moreover from assms(6) have "loginAttempts_count (?fB (?fA u)) = loginAttempts_count u + 2"
    by (simp add: incLoginAttempts_unlocked_count)
  ultimately show ?thesis
    using run by blast
qed

lemma reset_sequential_second_refused:
  assumes "distinct (map user_id s)"
    and "reset_hash_unique s (sha256_hex L (params_token reqA))"
    and "validationErrors reqB = []" and "params_token reqB = params_token reqA"
    and "reset_sequential L s reqA saltA nowA reqB saltB nowB = (s2, resA, resB)"
    and "statusCode resA = 200"
  shows "resB = invalid_token_400"
proof -
  obtain s1 r1 where first: "reset_password L s reqA saltA nowA = (s1, r1)"
    by (cases "reset_password L s reqA saltA nowA")
  with assms(5) have r1: "r1 = resA" and second: "snd (reset_password L s1 reqB saltB nowB) = resB"
    by (simp_all add: reset_sequential_def split: prod.splits)
  from reset_password_second_use(2) [OF assms(1,2) first _ assms(3,4), of saltB nowB] r1 assms(6)
  have "reset_password L s1 reqB saltB nowB = (s1, invalid_token_400)"
    by simp
  with second show ?thesis
    by simp
qed

text \<open>
  C8, amended. The handlers read and then write, and only the increment is applied to the
  stored value (\<open>$inc\<close>). So: two failed logins on an account that stores no lock both
  count, also when both queries precede both updates: the counter grows by two. And when two
  consumptions of one reset token are handled one after the other (unique ids, no other
  account storing the hash) and the first is answered 200, the second is answered 400 with
  the invalid-or-expired-token error.
\<close>

theorem two_requests_in_flight:
  "(distinct (map user_id s) \<and> validationErrors reqA = [] \<and> validationErrors reqB = [] \<and>
    findByEmailOrPhone s (body_identifier reqA) = Some u \<and>
    findByEmailOrPhone s (body_identifier reqB) = Some u \<and>
    loginAttempts_lockUntil u = None \<and> status u \<noteq> suspended \<and>
    \<not> comparePassword L u (body_password reqA) \<and>
    \<not> comparePassword L u (body_password reqB)
    \<longrightarrow> (\<exists>s' u'. login_interleaved L E s reqA nowA reqB nowB
            = (s', wrong_password_401, wrong_password_401) \<and>
           findById s' (user_id u) = Some u' \<and>
           loginAttempts_count u' = loginAttempts_count u + 2))
   \<and>
   (distinct (map user_id sR) \<and>
    reset_hash_unique sR (sha256_hex L (params_token reqC)) \<and>
    validationErrors reqD = [] \<and> params_token reqD = params_token reqC \<and>
    reset_sequential L sR reqC saltC nowC reqD saltD nowD = (sR', resC, resD) \<and>
    statusCode resC = 200
    \<longrightarrow> resD = invalid_token_400)"
proof (intro conjI impI)
  assume "distinct (map user_id s) \<and> validationErrors reqA = [] \<and> validationErrors reqB = [] \<and>
    findByEmailOrPhone s (body_identifier reqA) = Some u \<and>
    findByEmailOrPhone s (body_identifier reqB) = Some u \<and>
    loginAttempts_lockUntil u = None \<and> status u \<noteq> suspended \<and>
    \<not> comparePassword L u (body_password reqA) \<and>
    \<not> comparePassword L u (body_password reqB)"
  then have h: "distinct (map user_id s)" "validationErrors reqA = []" "validationErrors reqB = []"
    "findByEmailOrPhone s (body_identifier reqA) = Some u"
    "findByEmailOrPhone s (body_identifier reqB) = Some u"
    "loginAttempts_lockUntil u = None" "status u \<noteq> suspended"
    "\<not> comparePassword L u (body_password reqA)"
    "\<not> comparePassword L u (body_password reqB)"
    by simp_all
  from login_interleaved_both_count [OF h]
  show "\<exists>s' u'. login_interleaved L E s reqA nowA reqB nowB
            = (s', wrong_password_401, wrong_password_401) \<and>
           findById s' (user_id u) = Some u' \<and>
           loginAttempts_count u' = loginAttempts_count u + 2" .
next
  assume "distinct (map user_id sR) \<and>
    reset_hash_unique sR (sha256_hex L (params_token reqC)) \<and>
    validationErrors reqD = [] \<and> params_token reqD = params_token reqC \<and>
    reset_sequential L sR reqC saltC nowC reqD saltD nowD = (sR', resC, resD) \<and>
    statusCode resC = 200"
  then have h: "distinct (map user_id sR)"
    "reset_hash_unique sR (sha256_hex L (params_token reqC))"
    "validationErrors reqD = []" "params_token reqD = params_token reqC"
    "reset_sequential L sR reqC saltC nowC reqD saltD nowD = (sR', resC, resD)"
    "statusCode resC = 200"
    by simp_all
  from reset_sequential_second_refused [OF h] show "resD = invalid_token_400" .
qed

theorem two_requests_in_flight_witness:
  "(\<exists>s' u'. login_interleaved toy_lib default_env [alice_three] alice_wrong 1000 alice_wrong 1001
            = (s', wrong_password_401, wrong_password_401) \<and>
           findById s' 1 = Some u' \<and> loginAttempts_count u' = 5)
   \<and> snd (snd (reset_sequential toy_lib [alice_t1]
       (reset_request ''t1'' ''NewPass123'') ''x'' 2000
       (reset_request ''t1'' ''Mallory99'') ''y'' 2001)) = invalid_token_400"
proof -
  let ?C = "reset_request ''t1'' ''NewPass123''" and ?D = "reset_request ''t1'' ''Mallory99''"
  let ?r = "reset_sequential toy_lib [alice_t1] ?C ''x'' 2000 ?D ''y'' 2001"
  have a: "distinct (map user_id [alice_three])" "validationErrors alice_wrong = []"
    "findByEmailOrPhone [alice_three] (body_identifier alice_wrong) = Some alice_three"
    "loginAttempts_lockUntil alice_three = None" "status alice_three \<noteq> suspended"
    "\<not> comparePassword toy_lib alice_three (body_password alice_wrong)"
    "user_id alice_three = 1" "loginAttempts_count alice_three = 3"
    by code_simp+
  have b: "distinct (map user_id [alice_t1])"
    "reset_hash_unique [alice_t1] (sha256_hex toy_lib (params_token ?C))"
    "validationErrors ?D = []" "params_token ?D = params_token ?C"
    "statusCode (fst (snd ?r)) = 200"
    by code_simp+
  have r: "?r = (fst ?r, fst (snd ?r), snd (snd ?r))"
    by simp
  from two_requests_in_flight [where s = "[alice_three]" and reqA = alice_wrong
      and reqB = alice_wrong and u = alice_three and L = toy_lib and E = default_env
      and nowA = 1000 and nowB = 1001 and sR = "[alice_t1]" and reqC = ?C and reqD = ?D
      and saltC = "''x''" and nowC = 2000 and saltD = "''y''" and nowD = 2001
      and sR' = "fst ?r" and resC = "fst (snd ?r)" and resD = "snd (snd ?r)"] a b r
  show ?thesis
    by simp
qed

end
